theory Spec2Isabelle
  imports Main "HOL-Library.Char_ord" "HOL-Library.List_Lexorder" "HOL-Library.Multiset"
begin

section \<open>Contributor statistics of \<open>tools/zanata/zanata_stats.py\<close>\<close>

text \<open>
  The development embeds the class \<open>User\<close> of \<open>tools/zanata/zanata_stats.py\<close>: its
  constructor, the comparison \<open>__lt__\<close>, \<open>read_from_zanata_stats\<close>, \<open>needs_output\<close>,
  \<open>get_flattened_data_title\<close>, \<open>convert_to_flattened_data\<close> and
  \<open>convert_to_serializable_data\<close>, and the filter-and-sort step of
  \<open>write_stats_to_file\<close>. The aggregate of that file stores one translation-stats map and
  one review-stats map. The storage per (project, version) scope and the rollup across
  scopes, which \<open>test_zanata_stats.py\<close> exercises, are not in that file; they are modelled
  from the specification in a subsection of their own.
\<close>

subsection \<open>Dictionaries of counters\<close>

text \<open>
  A Python \<open>dict\<close> from counter names to integers is an association list in insertion
  order. Python integers are unbounded, hence \<open>int\<close>. Strings are byte lists; their order
  (\<open>Char_ord\<close>, \<open>List_Lexorder\<close>) is the lexicographic order on bytes, which on UTF-8 text
  is the order of the code points that Python compares.
\<close>

type_synonym stats_dict = "(string \<times> int) list"

text \<open>\<open>d.get(k)\<close>\<close>

fun dict_get :: "stats_dict \<Rightarrow> string \<Rightarrow> int option" where
  "dict_get [] k = None"
| "dict_get ((k', v) # d) k = (if k' = k then Some v else dict_get d k)"

text \<open>\<open>d.get(k, dflt)\<close>\<close>

definition dict_get_default :: "stats_dict \<Rightarrow> string \<Rightarrow> int \<Rightarrow> int" where
  "dict_get_default d k dflt = (case dict_get d k of None \<Rightarrow> dflt | Some v \<Rightarrow> v)"

text \<open>\<open>d[k] = v\<close>: an existing key keeps its place, a new key goes last.\<close>

fun dict_set :: "stats_dict \<Rightarrow> string \<Rightarrow> int \<Rightarrow> stats_dict" where
  "dict_set [] k v = [(k, v)]"
| "dict_set ((k', v') # d) k v =
     (if k' = k then (k, v) # d else (k', v') # dict_set d k v)"

text \<open>\<open>d.keys()\<close> and \<open>d.values()\<close>\<close>

definition dict_keys :: "stats_dict \<Rightarrow> string list" where
  "dict_keys d = map fst d"

definition dict_values :: "stats_dict \<Rightarrow> int list" where
  "dict_values d = map snd d"

text \<open>The truth value of a dictionary in a condition: false exactly when it is empty.\<close>

definition truthy :: "stats_dict \<Rightarrow> bool" where
  "truthy d = (d \<noteq> [])"

subsection \<open>The payload and the aggregate\<close>

text \<open>
  The payload is the decoded JSON of one request (the format is in the comment of
  \<open>read_from_zanata_stats\<close>). A key that the code reads with \<open>[...]\<close> and that may be
  missing is an \<open>option\<close>, so that the \<open>KeyError\<close> is a value; \<open>stats.get(...)\<close> gives
  \<open>None\<close> for a missing key.
\<close>

record contribution =
  locale_tag :: "string option"
  translation_stats_raw :: "stats_dict option"
  review_stats_raw :: "stats_dict option"

record zanata_stats =
  username :: string
  contributions :: "contribution list option"

record user =
  user_id :: string
  lang :: string
  translation_stats :: stats_dict
  review_stats :: stats_dict

datatype error = KeyError string

text \<open>\<open>User.__init__\<close>\<close>

definition User :: "string \<Rightarrow> string \<Rightarrow> user" where
  "User uid language_code =
     \<lparr>user_id = uid, lang = language_code, translation_stats = [], review_stats = []\<rparr>"

subsection \<open>\<open>read_from_zanata_stats\<close>\<close>

text \<open>
  The comprehension \<open>[d for d in zanata_stats['contributions'] if d['locale'] == self.lang]\<close>
  reads \<open>d['locale']\<close> of every entry, so an entry without the key raises wherever it
  stands in the list.
\<close>

fun select_locale :: "string \<Rightarrow> contribution list \<Rightarrow> error + contribution list" where
  "select_locale l [] = Inr []"
| "select_locale l (d # ds) =
     (case locale_tag d of
        None \<Rightarrow> Inl (KeyError ''locale'')
      | Some loc \<Rightarrow>
          (case select_locale l ds of
             Inl e \<Rightarrow> Inl e
           | Inr r \<Rightarrow> Inr (if loc = l then d # r else r)))"

text \<open>\<open>trans_stats['total'] = sum(trans_stats.values())\<close>\<close>

definition set_total :: "stats_dict \<Rightarrow> stats_dict" where
  "set_total d = dict_set d ''total'' (sum_list (dict_values d))"

text \<open>
  The two \<open>if\<close> blocks. The dictionary that receives \<open>total\<close> is the payload's own
  object, and the aggregate keeps a reference to it: the assignment changes the entry of
  the payload as well, so each block returns the aggregate and the entry.
\<close>

definition read_translation :: "user \<times> contribution \<Rightarrow> user \<times> contribution" where
  "read_translation se =
     (case translation_stats_raw (snd se) of
        None \<Rightarrow> se
      | Some trans_stats \<Rightarrow>
          if truthy trans_stats
          then (let t = set_total trans_stats
                in ((fst se)\<lparr>translation_stats := t\<rparr>,
                    (snd se)\<lparr>translation_stats_raw := Some t\<rparr>))
          else se)"

definition read_review :: "user \<times> contribution \<Rightarrow> user \<times> contribution" where
  "read_review se =
     (case review_stats_raw (snd se) of
        None \<Rightarrow> se
      | Some rev_stats \<Rightarrow>
          if truthy rev_stats
          then (let r = set_total rev_stats
                in ((fst se)\<lparr>review_stats := r\<rparr>,
                    (snd se)\<lparr>review_stats_raw := Some r\<rparr>))
          else se)"

text \<open>
  The payload after the call: the first entry of the language, \<open>stats[0]\<close>, is the object
  that was changed.
\<close>

fun store_first :: "string \<Rightarrow> contribution \<Rightarrow> contribution list \<Rightarrow> contribution list" where
  "store_first l e [] = []"
| "store_first l e (d # ds) =
     (if locale_tag d = Some l then e # ds else d # store_first l e ds)"

definition read_from_zanata_stats :: "user \<Rightarrow> zanata_stats \<Rightarrow> error + user \<times> zanata_stats" where
  "read_from_zanata_stats self zs =
     (case contributions zs of
        None \<Rightarrow> Inl (KeyError ''contributions'')
      | Some cs \<Rightarrow>
          (case select_locale (lang self) cs of
             Inl e \<Rightarrow> Inl e
           | Inr [] \<Rightarrow> Inr (self, zs)
           | Inr (stats0 # _) \<Rightarrow>
               (let (self', stats0') = read_review (read_translation (self, stats0))
                in Inr (self', zs\<lparr>contributions := Some (store_first (lang self) stats0' cs)\<rparr>))))"

subsection \<open>\<open>needs_output\<close>\<close>

definition needs_output :: "user \<Rightarrow> bool \<Rightarrow> bool" where
  "needs_output self include_no_activities =
     (if include_no_activities then True
      else if truthy (translation_stats self) \<or> truthy (review_stats self) then True
      else False)"

subsection \<open>The flattened row and the serializable record\<close>

text \<open>A row of the CSV file holds strings and integers.\<close>

datatype cell = Str string | Num int

definition get_flattened_data_title :: "string list" where
  "get_flattened_data_title =
     [''user_id'',
      ''lang'',
      ''translation-total'',
      ''translated'',
      ''needReview'',
      ''approved'',
      ''rejected'',
      ''review-total'',
      ''review-approved'',
      ''review-rejected'']"

definition convert_to_flattened_data :: "user \<Rightarrow> cell list" where
  "convert_to_flattened_data self =
     [Str (user_id self),
      Str (lang self),
      Num (dict_get_default (translation_stats self) ''total'' 0),
      Num (dict_get_default (translation_stats self) ''translated'' 0),
      Num (dict_get_default (translation_stats self) ''needReview'' 0),
      Num (dict_get_default (translation_stats self) ''approved'' 0),
      Num (dict_get_default (translation_stats self) ''rejected'' 0),
      Num (dict_get_default (review_stats self) ''total'' 0),
      Num (dict_get_default (review_stats self) ''approved'' 0),
      Num (dict_get_default (review_stats self) ''rejected'' 0)]"

text \<open>The values of the serializable record are strings and dictionaries of counters.\<close>

datatype json = JString string | JObject stats_dict

definition convert_to_serializable_data :: "user \<Rightarrow> (string \<times> json) list" where
  "convert_to_serializable_data self =
     [(''user_id'', JString (user_id self)),
      (''lang'', JString (lang self)),
      (''translation-stats'', JObject (translation_stats self)),
      (''review-stats'', JObject (review_stats self))]"

subsection \<open>\<open>__lt__\<close> and the sorting of \<open>write_stats_to_file\<close>\<close>

definition user_lt :: "user \<Rightarrow> user \<Rightarrow> bool" where
  "user_lt self other =
     (if lang self \<noteq> lang other then lang self < lang other
      else user_id self < user_id other)"

text \<open>
  \<open>sorted\<close> is Python's built-in: a stable sort that compares with \<open>__lt__\<close> only. It is
  modelled by the stable insertion sort.
\<close>

fun insert_lt :: "user \<Rightarrow> user list \<Rightarrow> user list" where
  "insert_lt x [] = [x]"
| "insert_lt x (y # ys) = (if user_lt y x then y # insert_lt x ys else x # y # ys)"

definition sorted_users :: "user list \<Rightarrow> user list" where
  "sorted_users users = foldr insert_lt users []"

text \<open>\<open>sorted([user for user in users if user.needs_output(include_no_activities)])\<close>\<close>

definition stats_to_write :: "user list \<Rightarrow> bool \<Rightarrow> user list" where
  "stats_to_write users include_no_activities =
     sorted_users (filter (\<lambda>u. needs_output u include_no_activities) users)"

subsection \<open>Vocabulary of the statements\<close>

text \<open>
  A payload has the expected shape when the list of contributions is there and every
  entry has its language tag; the entry of a language is the first one with that tag.
\<close>

definition well_formed :: "zanata_stats \<Rightarrow> bool" where
  "well_formed zs =
     (case contributions zs of
        None \<Rightarrow> False
      | Some cs \<Rightarrow> list_all (\<lambda>c. locale_tag c \<noteq> None) cs)"

definition matched_entry :: "string \<Rightarrow> zanata_stats \<Rightarrow> contribution option" where
  "matched_entry l zs =
     (case contributions zs of
        None \<Rightarrow> None
      | Some cs \<Rightarrow> find (\<lambda>c. locale_tag c = Some l) cs)"

text \<open>
  What one call leaves in a group of the aggregate: the map of the entry with its
  \<open>total\<close> when the entry carries a non-empty map, the map stored before otherwise.
\<close>

definition merged_group :: "stats_dict \<Rightarrow> stats_dict option \<Rightarrow> stats_dict" where
  "merged_group old raw =
     (case raw of None \<Rightarrow> old | Some d \<Rightarrow> if d = [] then old else set_total d)"

text \<open>The aggregate after one call, and after two calls in succession on two payloads.\<close>

definition user_after :: "user \<Rightarrow> zanata_stats \<Rightarrow> error + user" where
  "user_after u zs =
     (case read_from_zanata_stats u zs of Inl e \<Rightarrow> Inl e | Inr (u', _) \<Rightarrow> Inr u')"

definition read_twice :: "user \<Rightarrow> zanata_stats \<Rightarrow> zanata_stats \<Rightarrow> error + user" where
  "read_twice u zs1 zs2 =
     (case user_after u zs1 of Inl e \<Rightarrow> Inl e | Inr u1 \<Rightarrow> user_after u1 zs2)"

text \<open>
  The calls that the loop of \<open>get_zanata_stats\<close> makes on one aggregate, each on a payload
  as fetched; the first error ends the run.
\<close>

fun read_all :: "user \<Rightarrow> zanata_stats list \<Rightarrow> error + user" where
  "read_all u [] = Inr u"
| "read_all u (zs # zss) =
     (case user_after u zs of Inl e \<Rightarrow> Inl e | Inr u' \<Rightarrow> read_all u' zss)"

text \<open>
  A payload records activity of a group for a language when its entry of the language
  carries a non-empty map for the group.
\<close>

definition carries_translation :: "string \<Rightarrow> zanata_stats \<Rightarrow> bool" where
  "carries_translation l zs =
     (case matched_entry l zs of
        None \<Rightarrow> False
      | Some e \<Rightarrow> (case translation_stats_raw e of None \<Rightarrow> False | Some d \<Rightarrow> d \<noteq> []))"

definition carries_review :: "string \<Rightarrow> zanata_stats \<Rightarrow> bool" where
  "carries_review l zs =
     (case matched_entry l zs of
        None \<Rightarrow> False
      | Some e \<Rightarrow> (case review_stats_raw e of None \<Rightarrow> False | Some d \<Rightarrow> d \<noteq> []))"

text \<open>A counter as a table shows it: the value bound to the key, zero without a binding.\<close>

definition counter_or_zero :: "stats_dict \<Rightarrow> string \<Rightarrow> int" where
  "counter_or_zero d k = (case map_of d k of None \<Rightarrow> 0 | Some v \<Rightarrow> v)"

text \<open>
  Two calls in succession on one payload object: the second call reads the payload as the
  first call left it.
\<close>

definition read_same_object_twice :: "user \<Rightarrow> zanata_stats \<Rightarrow> error + user" where
  "read_same_object_twice u zs =
     (case read_from_zanata_stats u zs of
        Inl e \<Rightarrow> Inl e
      | Inr (u1, zs1) \<Rightarrow> user_after u1 zs1)"

subsection \<open>The rollup across scopes\<close>

text \<open>
  Modelled from the spec: the record of one (project, version) scope, which
  \<open>tools/zanata/zanata_stats.py\<close> does not have (its aggregate stores one map per
  group). The spec's record is the pair of the translation-stats map and the
  review-stats map, either of which may be empty.
\<close>

type_synonym scope_record = "stats_dict \<times> stats_dict"

text \<open>
  Modelled from the spec: the per-scope storage of the aggregate, missing from the file
  above and used by the test suite as \<open>user.stats\<close>. It is a mapping from the project
  identifier to a mapping from the version identifier to the scope's record, and the
  entry under the sentinel scope name, absent until the rollup is invoked; the entry is
  a field of its own here, so the scopes never include it.
\<close>

record aggregate =
  scopes :: "(string \<times> (string \<times> scope_record) list) list"
  rollup :: "scope_record option"

text \<open>
  Modelled from the spec: the canonical counter keys of the two groups, which the missing
  rollup initialises at zero (four translation counters; two review counters, three
  with \<open>total\<close>).
\<close>

definition translation_fields :: "string list" where
  "translation_fields = [''translated'', ''needReview'', ''approved'', ''rejected'']"

definition review_fields :: "string list" where
  "review_fields = [''approved'', ''rejected'']"

text \<open>
  Modelled from the spec: the iteration of the missing rollup over every (project,
  version) scope currently stored.
\<close>

definition stored_records :: "aggregate \<Rightarrow> scope_record list" where
  "stored_records a = concat (map (\<lambda>(project, versions). map snd versions) (scopes a))"

text \<open>
  Modelled from the spec: one step of the missing rollup, which adds each counter value
  of a scope's map into the accumulator; a key not present in the scope's map contributes
  zero.
\<close>

definition add_scope :: "stats_dict \<Rightarrow> stats_dict \<Rightarrow> stats_dict" where
  "add_scope acc m = map (\<lambda>(k, v). (k, v + dict_get_default m k 0)) acc"

text \<open>
  Modelled from the spec: the missing rollup of one group. If any scope has a non-empty
  map for the group, the accumulator starts with all canonical keys at zero, every scope
  with a non-empty map is added into it, and \<open>total\<close> is recomputed as the sum of the
  other keys; if no scope has a non-empty map, the group of the rolled-up entry is the
  empty mapping.
\<close>

definition rollup_group :: "string list \<Rightarrow> stats_dict list \<Rightarrow> stats_dict" where
  "rollup_group ks maps =
     (let contributing = filter truthy maps
      in if contributing = [] then []
         else set_total (foldl add_scope (map (\<lambda>k. (k, 0)) ks) contributing))"

text \<open>
  Modelled from the spec: the missing operation \<open>computeTotal\<close> (\<open>populate_total_stats\<close>
  in the test suite). It rolls the two groups up independently and stores the result
  under the sentinel entry, overwriting any prior computation.
\<close>

definition computeTotal :: "aggregate \<Rightarrow> aggregate" where
  "computeTotal a =
     a\<lparr>rollup := Some (rollup_group translation_fields (map fst (stored_records a)),
                       rollup_group review_fields (map snd (stored_records a)))\<rparr>"

text \<open>The sum of a counter over a list of maps, a missing key counting as zero.\<close>

definition counter_sum :: "stats_dict list \<Rightarrow> string \<Rightarrow> int" where
  "counter_sum maps k = sum_list (map (\<lambda>m. counter_or_zero m k) maps)"

text \<open>
  The scopes that the test suite sets up: \<open>proj-1/master\<close> with both groups,
  \<open>proj-1/stable-ocata\<close> with translations only, \<open>proj-2/master\<close> with reviews only, each
  map with its \<open>total\<close>.
\<close>

definition test_aggregate :: aggregate where
  "test_aggregate =
     \<lparr>scopes =
        [(''proj-1'',
          [(''master'',
            ([(''translated'', 3), (''needReview'', 6), (''approved'', 27), (''rejected'', 1),
              (''total'', 37)],
             [(''approved'', 277), (''rejected'', 10), (''total'', 287)])),
           (''stable-ocata'',
            ([(''translated'', 1460), (''needReview'', 5), (''approved'', 459),
              (''rejected'', 2), (''total'', 1926)],
             []))]),
         (''proj-2'',
          [(''master'',
            ([], [(''approved'', 250), (''rejected'', 31), (''total'', 281)]))])],
      rollup = None\<rparr>"

subsection \<open>Payloads of the test suite\<close>

text \<open>
  The counters that \<open>test_zanata_stats.py\<close> expects from its three data files, for the
  language \<open>lang-a\<close>.
\<close>

definition entry_both :: contribution where
  "entry_both =
     \<lparr>locale_tag = Some ''lang-a'',
      translation_stats_raw =
        Some [(''translated'', 3), (''needReview'', 6), (''approved'', 27), (''rejected'', 1)],
      review_stats_raw = Some [(''approved'', 277), (''rejected'', 10)]\<rparr>"

definition entry_translations_only :: contribution where
  "entry_translations_only =
     \<lparr>locale_tag = Some ''lang-a'',
      translation_stats_raw =
        Some [(''translated'', 1460), (''needReview'', 5), (''approved'', 459), (''rejected'', 2)],
      review_stats_raw = None\<rparr>"

definition entry_review_only :: contribution where
  "entry_review_only =
     \<lparr>locale_tag = Some ''lang-a'',
      translation_stats_raw = None,
      review_stats_raw = Some [(''approved'', 250), (''rejected'', 31)]\<rparr>"

definition entry_other :: contribution where
  "entry_other =
     \<lparr>locale_tag = Some ''lang-b'',
      translation_stats_raw = Some [(''translated'', 8)],
      review_stats_raw = None\<rparr>"

definition entry_empty_groups :: contribution where
  "entry_empty_groups =
     \<lparr>locale_tag = Some ''lang-a'',
      translation_stats_raw = Some [],
      review_stats_raw = Some []\<rparr>"

definition user_with_stats :: user where
  "user_with_stats =
     \<lparr>user_id = ''user-a'', lang = ''lang-a'',
      translation_stats = [(''translated'', 5), (''total'', 5)],
      review_stats = [(''approved'', 1), (''total'', 1)]\<rparr>"

definition payload :: "contribution list \<Rightarrow> zanata_stats" where
  "payload cs = \<lparr>username = ''user-a'', contributions = Some cs\<rparr>"

section \<open>Properties\<close>

subsection \<open>Dictionaries\<close>

lemma dict_set_fresh:
  "k \<notin> set (dict_keys d) \<Longrightarrow> dict_set d k v = d @ [(k, v)]"
  by (induction d) (auto simp: dict_keys_def)

lemma set_total_fresh:
  "''total'' \<notin> set (dict_keys d) \<Longrightarrow> set_total d = d @ [(''total'', sum_list (dict_values d))]"
  by (simp add: set_total_def dict_set_fresh)

subsection \<open>Selection of the entry\<close>

lemma select_locale_filter:
  "list_all (\<lambda>c. locale_tag c \<noteq> None) cs \<Longrightarrow>
   select_locale l cs = Inr (filter (\<lambda>c. locale_tag c = Some l) cs)"
  by (induction cs) auto

lemma filter_find_None:
  "find P cs = None \<Longrightarrow> filter P cs = []"
  by (induction cs) (auto split: if_splits)

lemma filter_find_Some:
  "find P cs = Some e \<Longrightarrow> \<exists>r. filter P cs = e # r"
  by (induction cs) (auto split: if_splits)

lemma read_no_match:
  assumes "well_formed zs" and "matched_entry (lang u) zs = None"
  shows "read_from_zanata_stats u zs = Inr (u, zs)"
proof -
  from assms(1) obtain cs where cs: "contributions zs = Some cs"
    and all: "list_all (\<lambda>c. locale_tag c \<noteq> None) cs"
    by (auto simp: well_formed_def split: option.splits)
  from assms(2) cs have "filter (\<lambda>c. locale_tag c = Some (lang u)) cs = []"
    by (simp add: matched_entry_def filter_find_None)
  with cs all show ?thesis
    by (simp add: read_from_zanata_stats_def select_locale_filter)
qed

lemma read_match:
  assumes "well_formed zs" and "matched_entry (lang u) zs = Some e"
  shows "\<exists>cs. contributions zs = Some cs \<and>
           read_from_zanata_stats u zs =
             Inr (fst (read_review (read_translation (u, e))),
                  zs\<lparr>contributions :=
                       Some (store_first (lang u) (snd (read_review (read_translation (u, e)))) cs)\<rparr>)"
proof -
  from assms(1) obtain cs where cs: "contributions zs = Some cs"
    and all: "list_all (\<lambda>c. locale_tag c \<noteq> None) cs"
    by (auto simp: well_formed_def split: option.splits)
  from assms(2) cs obtain r where "filter (\<lambda>c. locale_tag c = Some (lang u)) cs = e # r"
    using filter_find_Some[of "\<lambda>c. locale_tag c = Some (lang u)" cs e]
    by (auto simp: matched_entry_def)
  with cs all show ?thesis
    by (simp add: read_from_zanata_stats_def select_locale_filter case_prod_beta)
qed

subsection \<open>The two blocks of a call\<close>

lemma blocks_user:
  "fst (read_review (read_translation (u, e))) =
     u\<lparr>translation_stats := merged_group (translation_stats u) (translation_stats_raw e),
       review_stats := merged_group (review_stats u) (review_stats_raw e)\<rparr>"
  by (simp add: read_review_def read_translation_def merged_group_def truthy_def Let_def
      split: option.splits)

lemma user_after_no_match:
  "well_formed zs \<Longrightarrow> matched_entry (lang u) zs = None \<Longrightarrow> user_after u zs = Inr u"
  by (simp add: user_after_def read_no_match)

lemma user_after_match:
  assumes "well_formed zs" and "matched_entry (lang u) zs = Some e"
  shows "user_after u zs =
     Inr (u\<lparr>translation_stats := merged_group (translation_stats u) (translation_stats_raw e),
            review_stats := merged_group (review_stats u) (review_stats_raw e)\<rparr>)"
  using read_match[OF assms] by (auto simp: user_after_def blocks_user)


lemma blocks_entry:
  "snd (read_review (read_translation (u, e))) =
     e\<lparr>translation_stats_raw :=
         map_option (\<lambda>d. if d = [] then d else set_total d) (translation_stats_raw e),
       review_stats_raw :=
         map_option (\<lambda>d. if d = [] then d else set_total d) (review_stats_raw e)\<rparr>"
  by (simp add: read_review_def read_translation_def truthy_def Let_def
      split: option.splits)

lemma find_store_first:
  "find (\<lambda>c. locale_tag c = Some l) cs = Some e \<Longrightarrow> locale_tag e' = Some l \<Longrightarrow>
   find (\<lambda>c. locale_tag c = Some l) (store_first l e' cs) = Some e'"
  by (induction cs) (auto split: if_splits)

lemma list_all_store_first:
  "list_all (\<lambda>c. locale_tag c \<noteq> None) cs \<Longrightarrow> locale_tag e' \<noteq> None \<Longrightarrow>
   list_all (\<lambda>c. locale_tag c \<noteq> None) (store_first l e' cs)"
  by (induction cs) auto

lemma store_first_split:
  "list_all (\<lambda>c. \<exists>l'. locale_tag c = Some l' \<and> l' \<noteq> l) pre \<Longrightarrow> locale_tag e = Some l \<Longrightarrow>
   store_first l e' (pre @ e # post) = pre @ e' # post"
  by (induction pre) auto

lemma find_split:
  "list_all (\<lambda>c. \<exists>l'. locale_tag c = Some l' \<and> l' \<noteq> l) pre \<Longrightarrow> locale_tag e = Some l \<Longrightarrow>
   find (\<lambda>c. locale_tag c = Some l) (pre @ e # post) = Some e"
  by (induction pre) auto

lemma find_none_other_tags:
  "list_all (\<lambda>c. \<exists>l'. locale_tag c = Some l' \<and> l' \<noteq> l) cs \<Longrightarrow>
   find (\<lambda>c. locale_tag c = Some l) cs = None"
  by (induction cs) auto

lemma other_tags_have_tag:
  "list_all (\<lambda>c. \<exists>l'. locale_tag c = Some l' \<and> l' \<noteq> l) cs \<Longrightarrow>
   list_all (\<lambda>c. locale_tag c \<noteq> None) cs"
  by (induction cs) auto


lemma find_holds:
  "find P cs = Some e \<Longrightarrow> P e"
  by (induction cs) (auto split: if_splits)

lemma matched_entry_tag:
  "matched_entry l zs = Some e \<Longrightarrow> locale_tag e = Some l"
  by (auto simp: matched_entry_def split: option.splits dest: find_holds)

lemma matched_entry_stored:
  assumes "contributions zs = Some cs" and "matched_entry l zs = Some e"
    and "locale_tag e' = Some l"
  shows "matched_entry l (zs\<lparr>contributions := Some (store_first l e' cs)\<rparr>) = Some e'"
  using assms by (simp add: matched_entry_def find_store_first)

lemma well_formed_stored:
  assumes "contributions zs = Some cs" and "well_formed zs" and "locale_tag e' = Some l"
  shows "well_formed (zs\<lparr>contributions := Some (store_first l e' cs)\<rparr>)"
proof -
  from assms(1,2) have "list_all (\<lambda>c. locale_tag c \<noteq> None) cs"
    unfolding well_formed_def by simp
  moreover from assms(3) have "locale_tag e' \<noteq> None"
    by simp
  ultimately have "list_all (\<lambda>c. locale_tag c \<noteq> None) (store_first l e' cs)"
    by (rule list_all_store_first)
  then show ?thesis
    unfolding well_formed_def by simp
qed

lemma merged_group_empty [simp]:
  "merged_group old (Some []) = old" "merged_group old None = old"
  by (simp_all add: merged_group_def)

lemma user_after_lang:
  "user_after u zs = Inr u' \<Longrightarrow> lang u' = lang u"
  by (auto simp: user_after_def read_from_zanata_stats_def read_translation_def
      read_review_def Let_def case_prod_beta
      split: option.splits sum.splits list.splits if_splits)


lemma select_locale_tags:
  "select_locale l cs = Inr r \<Longrightarrow> list_all (\<lambda>c. locale_tag c \<noteq> None) cs"
  by (induction cs arbitrary: r) (auto split: option.splits sum.splits)

lemma user_after_well_formed:
  assumes "user_after u zs = Inr u'"
  shows "well_formed zs"
proof -
  from assms obtain cs r where "contributions zs = Some cs" and "select_locale (lang u) cs = Inr r"
    by (auto simp: user_after_def read_from_zanata_stats_def
        split: option.splits sum.splits)
  then show ?thesis
    unfolding well_formed_def using select_locale_tags[of "lang u" cs r] by simp
qed

lemma merged_group_twice:
  "merged_group (merged_group old raw) raw = merged_group old raw"
  by (simp add: merged_group_def split: option.splits)

lemma merged_group_replaces:
  "d \<noteq> [] \<Longrightarrow> merged_group old (Some d) = set_total d"
  by (simp add: merged_group_def)

lemma user_after_total:
  "well_formed zs \<Longrightarrow> \<exists>u'. user_after u zs = Inr u' \<and> lang u' = lang u"
  by (cases "matched_entry (lang u) zs") (simp_all add: user_after_no_match user_after_match)

lemma user_after_idem:
  "read_twice u zs zs = user_after u zs"
proof (cases "user_after u zs")
  case (Inl err)
  then show ?thesis by (simp add: read_twice_def)
next
  case (Inr u1)
  then have wf: "well_formed zs" by (rule user_after_well_formed)
  have l: "lang u1 = lang u" using Inr by (rule user_after_lang)
  show ?thesis
  proof (cases "matched_entry (lang u) zs")
    case None
    with wf Inr have "u1 = u" by (simp add: user_after_no_match)
    with Inr show ?thesis by (simp add: read_twice_def)
  next
    case (Some e)
    from user_after_match[OF wf Some] Inr
    have u1: "u1 = u\<lparr>translation_stats := merged_group (translation_stats u) (translation_stats_raw e),
            review_stats := merged_group (review_stats u) (review_stats_raw e)\<rparr>"
      by simp
    from Some l have "matched_entry (lang u1) zs = Some e" by simp
    from user_after_match[OF wf this] have "user_after u1 zs = Inr u1"
      by (simp add: u1 merged_group_twice)
    with Inr show ?thesis by (simp add: read_twice_def)
  qed
qed


subsection \<open>The total written by a call\<close>

text \<open>
  C1. When the entry of the aggregate's language carries a translation-stats map of four
  integer counters \<open>a\<close>, \<open>b\<close>, \<open>c\<close>, \<open>d\<close> under distinct keys other than \<open>total\<close>, the
  call succeeds and the map stored in the aggregate is the original four bindings,
  unchanged and in their order, followed by \<open>total\<close> bound to \<open>a + b + c + d\<close>. The
  same holds for a review-stats map of two counters \<open>x\<close>, \<open>y\<close>, with \<open>total\<close> bound to
  \<open>x + y\<close>.
\<close>

theorem merge_stores_total:
  assumes "well_formed zs" and "matched_entry (lang u) zs = Some e"
  shows "\<exists>u' zs'. read_from_zanata_stats u zs = Inr (u', zs') \<and>
     (\<forall>k1 k2 k3 k4 a b c d.
        translation_stats_raw e = Some [(k1, a), (k2, b), (k3, c), (k4, d)] \<and>
        distinct [k1, k2, k3, k4] \<and> ''total'' \<notin> set [k1, k2, k3, k4] \<longrightarrow>
        translation_stats u' =
          [(k1, a), (k2, b), (k3, c), (k4, d), (''total'', a + b + c + d)] \<and>
        dict_get (translation_stats u') ''total'' = Some (a + b + c + d)) \<and>
     (\<forall>r1 r2 x y.
        review_stats_raw e = Some [(r1, x), (r2, y)] \<and>
        distinct [r1, r2] \<and> ''total'' \<notin> set [r1, r2] \<longrightarrow>
        review_stats u' = [(r1, x), (r2, y), (''total'', x + y)] \<and>
        dict_get (review_stats u') ''total'' = Some (x + y))"
proof -
  from read_match[OF assms] obtain zs' where
    r: "read_from_zanata_stats u zs = Inr (fst (read_review (read_translation (u, e))), zs')"
    by blast
  let ?u = "fst (read_review (read_translation (u, e)))"
  have t: "translation_stats ?u = merged_group (translation_stats u) (translation_stats_raw e)"
    and v: "review_stats ?u = merged_group (review_stats u) (review_stats_raw e)"
    by (simp_all add: blocks_user)
  have "\<forall>k1 k2 k3 k4 a b c d.
        translation_stats_raw e = Some [(k1, a), (k2, b), (k3, c), (k4, d)] \<and>
        distinct [k1, k2, k3, k4] \<and> ''total'' \<notin> set [k1, k2, k3, k4] \<longrightarrow>
        translation_stats ?u =
          [(k1, a), (k2, b), (k3, c), (k4, d), (''total'', a + b + c + d)] \<and>
        dict_get (translation_stats ?u) ''total'' = Some (a + b + c + d)"
    unfolding t
    by (auto simp: merged_group_def set_total_fresh dict_keys_def dict_values_def)
  moreover have "\<forall>r1 r2 x y.
        review_stats_raw e = Some [(r1, x), (r2, y)] \<and>
        distinct [r1, r2] \<and> ''total'' \<notin> set [r1, r2] \<longrightarrow>
        review_stats ?u = [(r1, x), (r2, y), (''total'', x + y)] \<and>
        dict_get (review_stats ?u) ''total'' = Some (x + y)"
    unfolding v
    by (auto simp: merged_group_def set_total_fresh dict_keys_def dict_values_def)
  ultimately show ?thesis using r by blast
qed

theorem merge_stores_total_witness:
  "well_formed (payload [entry_other, entry_both]) \<and>
   matched_entry (lang (User ''user-a'' ''lang-a'')) (payload [entry_other, entry_both])
     = Some entry_both \<and>
   (\<exists>u' zs'. read_from_zanata_stats (User ''user-a'' ''lang-a'')
                (payload [entry_other, entry_both]) = Inr (u', zs') \<and>
      translation_stats u' =
        [(''translated'', 3), (''needReview'', 6), (''approved'', 27), (''rejected'', 1),
         (''total'', 37)] \<and>
      review_stats u' = [(''approved'', 277), (''rejected'', 10), (''total'', 287)])"
proof -
  let ?u = "User ''user-a'' ''lang-a''" and ?zs = "payload [entry_other, entry_both]"
  have w: "well_formed ?zs"
    by (simp add: well_formed_def payload_def entry_other_def entry_both_def)
  have m: "matched_entry (lang ?u) ?zs = Some entry_both"
    by (simp add: matched_entry_def payload_def entry_other_def entry_both_def User_def)
  from merge_stores_total[OF w m] obtain u' zs' where
    r: "read_from_zanata_stats ?u ?zs = Inr (u', zs')"
    and t: "\<forall>k1 k2 k3 k4 a b c d.
        translation_stats_raw entry_both = Some [(k1, a), (k2, b), (k3, c), (k4, d)] \<and>
        distinct [k1, k2, k3, k4] \<and> ''total'' \<notin> set [k1, k2, k3, k4] \<longrightarrow>
        translation_stats u' =
          [(k1, a), (k2, b), (k3, c), (k4, d), (''total'', a + b + c + d)] \<and>
        dict_get (translation_stats u') ''total'' = Some (a + b + c + d)"
    and v: "\<forall>r1 r2 x y.
        review_stats_raw entry_both = Some [(r1, x), (r2, y)] \<and>
        distinct [r1, r2] \<and> ''total'' \<notin> set [r1, r2] \<longrightarrow>
        review_stats u' = [(r1, x), (r2, y), (''total'', x + y)] \<and>
        dict_get (review_stats u') ''total'' = Some (x + y)"
    by blast
  have "translation_stats u' =
        [(''translated'', 3), (''needReview'', 6), (''approved'', 27), (''rejected'', 1),
         (''total'', 37)]"
    using t[rule_format, of "''translated''" 3 "''needReview''" 6 "''approved''" 27
        "''rejected''" 1]
    by (simp add: entry_both_def)
  moreover have "review_stats u' = [(''approved'', 277), (''rejected'', 10), (''total'', 287)]"
    using v[rule_format, of "''approved''" 277 "''rejected''" 10]
    by (simp add: entry_both_def)
  ultimately show ?thesis using w m r by blast
qed


subsection \<open>A payload without the aggregate's language\<close>

text \<open>
  C4. When every entry of the contribution list has a language tag and none of the tags
  equals the aggregate's language code, the call raises no error and returns the
  aggregate as it was: nothing is stored and no empty entry is created. The payload is
  left as it was too.
\<close>

theorem no_match_is_noop:
  assumes "contributions zs = Some cs"
    and "list_all (\<lambda>c. \<exists>l. locale_tag c = Some l \<and> l \<noteq> lang u) cs"
  shows "read_from_zanata_stats u zs = Inr (u, zs)"
proof -
  have "list_all (\<lambda>c. locale_tag c \<noteq> None) cs"
    using assms(2) by (rule other_tags_have_tag)
  with assms(1) have "well_formed zs"
    unfolding well_formed_def by simp
  moreover have "matched_entry (lang u) zs = None"
    using assms by (simp add: matched_entry_def find_none_other_tags)
  ultimately show ?thesis by (rule read_no_match)
qed

theorem no_match_is_noop_witness:
  "contributions (payload [entry_both, entry_review_only]) = Some [entry_both, entry_review_only] \<and>
   list_all (\<lambda>c. \<exists>l. locale_tag c = Some l \<and>
        l \<noteq> lang \<lparr>user_id = ''user-a'', lang = ''other'',
                   translation_stats = [(''translated'', 5), (''total'', 5)],
                   review_stats = []\<rparr>)
     [entry_both, entry_review_only] \<and>
   read_from_zanata_stats
     \<lparr>user_id = ''user-a'', lang = ''other'',
      translation_stats = [(''translated'', 5), (''total'', 5)], review_stats = []\<rparr>
     (payload [entry_both, entry_review_only]) =
   Inr (\<lparr>user_id = ''user-a'', lang = ''other'',
         translation_stats = [(''translated'', 5), (''total'', 5)], review_stats = []\<rparr>,
        payload [entry_both, entry_review_only])"
proof -
  let ?u = "\<lparr>user_id = ''user-a'', lang = ''other'',
             translation_stats = [(''translated'', 5), (''total'', 5)], review_stats = []\<rparr>"
  have c: "contributions (payload [entry_both, entry_review_only])
             = Some [entry_both, entry_review_only]"
    by (simp add: payload_def)
  have a: "list_all (\<lambda>c. \<exists>l. locale_tag c = Some l \<and> l \<noteq> lang ?u)
             [entry_both, entry_review_only]"
    by (simp add: entry_both_def entry_review_only_def)
  from no_match_is_noop[OF c a] c a show ?thesis by simp
qed

subsection \<open>Several entries of the aggregate's language\<close>

text \<open>
  C9. Let the contribution list be \<open>pre @ e # post\<close>, where no entry of \<open>pre\<close> has the
  aggregate's language, \<open>e\<close> has it, and every entry of \<open>post\<close> has some language tag
  (\<open>post\<close> may hold further entries of the aggregate's language). The call uses \<open>e\<close>
  alone: the aggregate it returns is the one returned for the payload whose list is just
  \<open>[e]\<close>, and in the payload only \<open>e\<close> is replaced by its updated form, so the later
  entries are neither read into the aggregate nor changed.
\<close>

theorem first_entry_of_language_wins:
  assumes "contributions zs = Some (pre @ e # post)"
    and "list_all (\<lambda>c. \<exists>l. locale_tag c = Some l \<and> l \<noteq> lang u) pre"
    and "locale_tag e = Some (lang u)"
    and "list_all (\<lambda>c. locale_tag c \<noteq> None) post"
  shows "\<exists>u' e'.
     read_from_zanata_stats u zs = Inr (u', zs\<lparr>contributions := Some (pre @ e' # post)\<rparr>) \<and>
     read_from_zanata_stats u (zs\<lparr>contributions := Some [e]\<rparr>)
       = Inr (u', zs\<lparr>contributions := Some [e']\<rparr>)"
proof -
  let ?u = "fst (read_review (read_translation (u, e)))"
  let ?e = "snd (read_review (read_translation (u, e)))"
  have "list_all (\<lambda>c. locale_tag c \<noteq> None) pre"
    using assms(2) by (rule other_tags_have_tag)
  with assms(1,3,4) have wf: "well_formed zs"
    unfolding well_formed_def by simp
  have m: "matched_entry (lang u) zs = Some e"
    using assms by (simp add: matched_entry_def find_split)
  from read_match[OF wf m] assms(1) have
    "read_from_zanata_stats u zs =
       Inr (?u, zs\<lparr>contributions := Some (store_first (lang u) ?e (pre @ e # post))\<rparr>)"
    by simp
  then have 1: "read_from_zanata_stats u zs = Inr (?u, zs\<lparr>contributions := Some (pre @ ?e # post)\<rparr>)"
    using assms(2,3) by (simp add: store_first_split)
  let ?zs1 = "zs\<lparr>contributions := Some [e]\<rparr>"
  have wf1: "well_formed ?zs1"
    using assms(3) by (simp add: well_formed_def)
  have m1: "matched_entry (lang u) ?zs1 = Some e"
    using assms(3) by (simp add: matched_entry_def)
  from read_match[OF wf1 m1] assms(3)
  have 2: "read_from_zanata_stats u ?zs1 = Inr (?u, zs\<lparr>contributions := Some [?e]\<rparr>)"
    by simp
  from 1 2 show ?thesis by blast
qed

theorem first_entry_of_language_wins_witness:
  "contributions (payload [entry_other, entry_review_only, entry_both])
     = Some ([entry_other] @ entry_review_only # [entry_both]) \<and>
   list_all (\<lambda>c. \<exists>l. locale_tag c = Some l \<and> l \<noteq> lang (User ''user-a'' ''lang-a''))
     [entry_other] \<and>
   locale_tag entry_review_only = Some (lang (User ''user-a'' ''lang-a'')) \<and>
   locale_tag entry_both = Some (lang (User ''user-a'' ''lang-a'')) \<and>
   list_all (\<lambda>c. locale_tag c \<noteq> None) [entry_both] \<and>
   read_from_zanata_stats (User ''user-a'' ''lang-a'')
       (payload [entry_other, entry_review_only, entry_both]) =
     Inr (\<lparr>user_id = ''user-a'', lang = ''lang-a'', translation_stats = [],
           review_stats = [(''approved'', 250), (''rejected'', 31), (''total'', 281)]\<rparr>,
          payload [entry_other,
            entry_review_only\<lparr>review_stats_raw :=
              Some [(''approved'', 250), (''rejected'', 31), (''total'', 281)]\<rparr>,
            entry_both])"
proof -
  let ?u = "User ''user-a'' ''lang-a''"
  let ?zs = "payload [entry_other, entry_review_only, entry_both]"
  have c: "contributions ?zs = Some ([entry_other] @ entry_review_only # [entry_both])"
    by (simp add: payload_def)
  have a: "list_all (\<lambda>c. \<exists>l. locale_tag c = Some l \<and> l \<noteq> lang ?u) [entry_other]"
    by (simp add: entry_other_def User_def)
  have b: "locale_tag entry_review_only = Some (lang ?u)"
    by (simp add: entry_review_only_def User_def)
  have b': "locale_tag entry_both = Some (lang ?u)"
    by (simp add: entry_both_def User_def)
  have d: "list_all (\<lambda>c. locale_tag c \<noteq> None) [entry_both]"
    by (simp add: entry_both_def)
  from first_entry_of_language_wins[OF c a b d] obtain u' e' where
    1: "read_from_zanata_stats ?u ?zs
          = Inr (u', ?zs\<lparr>contributions := Some ([entry_other] @ e' # [entry_both])\<rparr>)"
    and 2: "read_from_zanata_stats ?u (?zs\<lparr>contributions := Some [entry_review_only]\<rparr>)
          = Inr (u', ?zs\<lparr>contributions := Some [e']\<rparr>)"
    by blast
  have "read_from_zanata_stats ?u (?zs\<lparr>contributions := Some [entry_review_only]\<rparr>) =
     Inr (\<lparr>user_id = ''user-a'', lang = ''lang-a'', translation_stats = [],
           review_stats = [(''approved'', 250), (''rejected'', 31), (''total'', 281)]\<rparr>,
          ?zs\<lparr>contributions := Some [entry_review_only\<lparr>review_stats_raw :=
              Some [(''approved'', 250), (''rejected'', 31), (''total'', 281)]\<rparr>]\<rparr>)"
    by (simp add: read_from_zanata_stats_def payload_def entry_review_only_def User_def
        read_translation_def read_review_def truthy_def set_total_def dict_values_def Let_def)
  with 2 have "u' = \<lparr>user_id = ''user-a'', lang = ''lang-a'', translation_stats = [],
           review_stats = [(''approved'', 250), (''rejected'', 31), (''total'', 281)]\<rparr>"
    and "e' = entry_review_only\<lparr>review_stats_raw :=
              Some [(''approved'', 250), (''rejected'', 31), (''total'', 281)]\<rparr>"
    by (simp_all add: payload_def)
  with 1 have "read_from_zanata_stats ?u ?zs =
     Inr (\<lparr>user_id = ''user-a'', lang = ''lang-a'', translation_stats = [],
           review_stats = [(''approved'', 250), (''rejected'', 31), (''total'', 281)]\<rparr>,
          payload [entry_other,
            entry_review_only\<lparr>review_stats_raw :=
              Some [(''approved'', 250), (''rejected'', 31), (''total'', 281)]\<rparr>,
            entry_both])"
    by (simp add: payload_def)
  with c a b b' d show ?thesis by blast
qed


subsection \<open>A group bound to an empty map\<close>

text \<open>
  C10. When the entry of the aggregate's language binds \<open>translation-stats\<close> to an empty
  map, the call treats the group as it treats a missing key: the aggregate it returns is
  the one returned for the payload in which the entry has no such key, the map stored in
  the aggregate for the group is the one stored before, and the entry of the payload
  still binds the key to the empty map, so no \<open>total\<close> was computed. The same holds for
  \<open>review-stats\<close>.
\<close>

theorem empty_group_is_skipped:
  assumes "contributions zs = Some cs" and "well_formed zs"
    and "matched_entry (lang u) zs = Some e"
  shows
    "(translation_stats_raw e = Some [] \<longrightarrow>
        user_after u zs =
          user_after u (zs\<lparr>contributions :=
             Some (store_first (lang u) (e\<lparr>translation_stats_raw := None\<rparr>) cs)\<rparr>) \<and>
        (\<exists>u' zs' e'. read_from_zanata_stats u zs = Inr (u', zs') \<and>
           translation_stats u' = translation_stats u \<and>
           matched_entry (lang u) zs' = Some e' \<and> translation_stats_raw e' = Some [])) \<and>
     (review_stats_raw e = Some [] \<longrightarrow>
        user_after u zs =
          user_after u (zs\<lparr>contributions :=
             Some (store_first (lang u) (e\<lparr>review_stats_raw := None\<rparr>) cs)\<rparr>) \<and>
        (\<exists>u' zs' e'. read_from_zanata_stats u zs = Inr (u', zs') \<and>
           review_stats u' = review_stats u \<and>
           matched_entry (lang u) zs' = Some e' \<and> review_stats_raw e' = Some []))"
proof -
  let ?u = "fst (read_review (read_translation (u, e)))"
  let ?e = "snd (read_review (read_translation (u, e)))"
  have tag: "locale_tag e = Some (lang u)"
    using assms(3) by (rule matched_entry_tag)
  have tag': "locale_tag ?e = Some (lang u)"
    using tag by (simp add: blocks_entry)
  from read_match[OF assms(2,3)] assms(1)
  have r: "read_from_zanata_stats u zs =
      Inr (?u, zs\<lparr>contributions := Some (store_first (lang u) ?e cs)\<rparr>)"
    by simp
  have m': "matched_entry (lang u) (zs\<lparr>contributions := Some (store_first (lang u) ?e cs)\<rparr>)
      = Some ?e"
    using assms(1,3) tag' by (rule matched_entry_stored)
  have absent: "user_after u zs =
      user_after u (zs\<lparr>contributions := Some (store_first (lang u) e0 cs)\<rparr>)"
    if same: "merged_group (translation_stats u) (translation_stats_raw e0)
                = merged_group (translation_stats u) (translation_stats_raw e)"
             "merged_group (review_stats u) (review_stats_raw e0)
                = merged_group (review_stats u) (review_stats_raw e)"
      and t0: "locale_tag e0 = Some (lang u)" for e0
  proof -
    have "well_formed (zs\<lparr>contributions := Some (store_first (lang u) e0 cs)\<rparr>)"
      using assms(1,2) t0 by (rule well_formed_stored)
    moreover have "matched_entry (lang u)
        (zs\<lparr>contributions := Some (store_first (lang u) e0 cs)\<rparr>) = Some e0"
      using assms(1,3) t0 by (rule matched_entry_stored)
    ultimately show ?thesis
      using same by (simp add: user_after_match[OF assms(2,3)] user_after_match)
  qed
  have "translation_stats_raw e = Some [] \<longrightarrow>
        user_after u zs =
          user_after u (zs\<lparr>contributions :=
             Some (store_first (lang u) (e\<lparr>translation_stats_raw := None\<rparr>) cs)\<rparr>) \<and>
        (\<exists>u' zs' e'. read_from_zanata_stats u zs = Inr (u', zs') \<and>
           translation_stats u' = translation_stats u \<and>
           matched_entry (lang u) zs' = Some e' \<and> translation_stats_raw e' = Some [])"
  proof
    assume em: "translation_stats_raw e = Some []"
    have "user_after u zs =
          user_after u (zs\<lparr>contributions :=
             Some (store_first (lang u) (e\<lparr>translation_stats_raw := None\<rparr>) cs)\<rparr>)"
      using em tag by (intro absent) simp_all
    moreover have "translation_stats ?u = translation_stats u"
      using em by (simp add: blocks_user)
    moreover have "translation_stats_raw ?e = Some []"
      using em by (simp add: blocks_entry)
    ultimately show "user_after u zs =
          user_after u (zs\<lparr>contributions :=
             Some (store_first (lang u) (e\<lparr>translation_stats_raw := None\<rparr>) cs)\<rparr>) \<and>
        (\<exists>u' zs' e'. read_from_zanata_stats u zs = Inr (u', zs') \<and>
           translation_stats u' = translation_stats u \<and>
           matched_entry (lang u) zs' = Some e' \<and> translation_stats_raw e' = Some [])"
      using r m' by blast
  qed
  moreover have "review_stats_raw e = Some [] \<longrightarrow>
        user_after u zs =
          user_after u (zs\<lparr>contributions :=
             Some (store_first (lang u) (e\<lparr>review_stats_raw := None\<rparr>) cs)\<rparr>) \<and>
        (\<exists>u' zs' e'. read_from_zanata_stats u zs = Inr (u', zs') \<and>
           review_stats u' = review_stats u \<and>
           matched_entry (lang u) zs' = Some e' \<and> review_stats_raw e' = Some [])"
  proof
    assume em: "review_stats_raw e = Some []"
    have "user_after u zs =
          user_after u (zs\<lparr>contributions :=
             Some (store_first (lang u) (e\<lparr>review_stats_raw := None\<rparr>) cs)\<rparr>)"
      using em tag by (intro absent) simp_all
    moreover have "review_stats ?u = review_stats u"
      using em by (simp add: blocks_user)
    moreover have "review_stats_raw ?e = Some []"
      using em by (simp add: blocks_entry)
    ultimately show "user_after u zs =
          user_after u (zs\<lparr>contributions :=
             Some (store_first (lang u) (e\<lparr>review_stats_raw := None\<rparr>) cs)\<rparr>) \<and>
        (\<exists>u' zs' e'. read_from_zanata_stats u zs = Inr (u', zs') \<and>
           review_stats u' = review_stats u \<and>
           matched_entry (lang u) zs' = Some e' \<and> review_stats_raw e' = Some [])"
      using r m' by blast
  qed
  ultimately show ?thesis by blast
qed


theorem empty_group_is_skipped_witness:
  "contributions (payload [entry_empty_groups]) = Some [entry_empty_groups] \<and>
   well_formed (payload [entry_empty_groups]) \<and>
   matched_entry (lang user_with_stats) (payload [entry_empty_groups]) = Some entry_empty_groups \<and>
   translation_stats_raw entry_empty_groups = Some [] \<and>
   review_stats_raw entry_empty_groups = Some [] \<and>
   user_after user_with_stats (payload [entry_empty_groups]) =
     user_after user_with_stats (payload [entry_empty_groups\<lparr>translation_stats_raw := None\<rparr>]) \<and>
   user_after user_with_stats (payload [entry_empty_groups]) =
     user_after user_with_stats (payload [entry_empty_groups\<lparr>review_stats_raw := None\<rparr>]) \<and>
   read_from_zanata_stats user_with_stats (payload [entry_empty_groups]) =
     Inr (user_with_stats, payload [entry_empty_groups])"
proof -
  let ?zs = "payload [entry_empty_groups]"
  have c: "contributions ?zs = Some [entry_empty_groups]"
    by (simp add: payload_def)
  have w: "well_formed ?zs"
    by (simp add: well_formed_def payload_def entry_empty_groups_def)
  have m: "matched_entry (lang user_with_stats) ?zs = Some entry_empty_groups"
    by (simp add: matched_entry_def payload_def entry_empty_groups_def user_with_stats_def)
  have t: "translation_stats_raw entry_empty_groups = Some []"
    and v: "review_stats_raw entry_empty_groups = Some []"
    by (simp_all add: entry_empty_groups_def)
  have s: "?zs\<lparr>contributions :=
      Some (store_first (lang user_with_stats) e' [entry_empty_groups])\<rparr> = payload [e']" for e'
    by (simp add: entry_empty_groups_def user_with_stats_def payload_def)
  note th = empty_group_is_skipped[OF c w m]
  have 1: "user_after user_with_stats ?zs =
      user_after user_with_stats (payload [entry_empty_groups\<lparr>translation_stats_raw := None\<rparr>])"
    using th[THEN conjunct1, THEN mp, OF t, THEN conjunct1] unfolding s .
  have 2: "user_after user_with_stats ?zs =
      user_after user_with_stats (payload [entry_empty_groups\<lparr>review_stats_raw := None\<rparr>])"
    using th[THEN conjunct2, THEN mp, OF v, THEN conjunct1] unfolding s .
  have 3: "read_from_zanata_stats user_with_stats ?zs = Inr (user_with_stats, ?zs)"
    by (simp add: read_from_zanata_stats_def payload_def entry_empty_groups_def
        user_with_stats_def read_translation_def read_review_def truthy_def)
  from c w m t v 1 2 3 show ?thesis by (intro conjI)
qed

subsection \<open>Two calls in succession\<close>

text \<open>
  A second call never reads what the first one stored, except to keep it: a group is
  assigned only under \<open>if trans_stats:\<close> and \<open>if review_stats:\<close>, and a payload without an
  entry of the language returns early. So the state after two calls is not always the
  state after the second call alone: here the first payload carries both groups and the
  second one only \<open>review-stats\<close>, and the translation counters of the first call stay.
\<close>

theorem repeated_merge_counterexample:
  "read_twice (User ''user-a'' ''lang-a'') (payload [entry_both]) (payload [entry_review_only])
     \<noteq> user_after (User ''user-a'' ''lang-a'') (payload [entry_review_only])"
  by (simp add: read_twice_def user_after_def read_from_zanata_stats_def payload_def
      entry_both_def entry_review_only_def User_def read_translation_def read_review_def
      truthy_def set_total_def dict_values_def Let_def)

text \<open>
  The payload object itself is changed by a call (it receives the \<open>total\<close> keys), so a
  second call on the same object sums the first call's \<open>total\<close> in: the payloads compared
  below are payloads as fetched, equal in value.
\<close>

lemma same_object_counts_total_twice:
  "read_same_object_twice (User ''user-a'' ''lang-a'') (payload [entry_review_only]) =
     Inr \<lparr>user_id = ''user-a'', lang = ''lang-a'', translation_stats = [],
          review_stats = [(''approved'', 250), (''rejected'', 31), (''total'', 562)]\<rparr>"
  by (simp add: read_same_object_twice_def user_after_def read_from_zanata_stats_def
      payload_def entry_review_only_def User_def read_translation_def read_review_def
      truthy_def set_total_def dict_values_def Let_def)

text \<open>
  C3, as amended. A second call with an equal payload changes nothing. On payloads of the
  expected shape two calls in succession raise no error, and the second call replaces
  each group for which the entry of its payload carries a non-empty map and keeps what
  was stored for every other group (everything, when its payload has no entry of the
  language). When that entry carries both groups non-empty, the state is the one a
  single call with the second payload produces.
\<close>

theorem repeated_merge:
  "read_twice u zs2 zs2 = user_after u zs2 \<and>
   (well_formed zs1 \<and> well_formed zs2 \<longrightarrow>
     (\<exists>u1 u2. user_after u zs1 = Inr u1 \<and> read_twice u zs1 zs2 = Inr u2 \<and>
        (case matched_entry (lang u) zs2 of
           None \<Rightarrow> u2 = u1
         | Some e2 \<Rightarrow>
             u2 = u1\<lparr>translation_stats :=
                        merged_group (translation_stats u1) (translation_stats_raw e2),
                      review_stats :=
                        merged_group (review_stats u1) (review_stats_raw e2)\<rparr>)) \<and>
     (\<forall>e2 t r. matched_entry (lang u) zs2 = Some e2 \<and>
        translation_stats_raw e2 = Some t \<and> t \<noteq> [] \<and>
        review_stats_raw e2 = Some r \<and> r \<noteq> [] \<longrightarrow>
        read_twice u zs1 zs2 = user_after u zs2))"
proof (intro conjI impI)
  show "read_twice u zs2 zs2 = user_after u zs2"
    by (rule user_after_idem)
next
  assume wf: "well_formed zs1 \<and> well_formed zs2"
  then obtain u1 where u1: "user_after u zs1 = Inr u1" and l: "lang u1 = lang u"
    using user_after_total[of zs1 u] by blast
  show "\<exists>u1 u2. user_after u zs1 = Inr u1 \<and> read_twice u zs1 zs2 = Inr u2 \<and>
        (case matched_entry (lang u) zs2 of
           None \<Rightarrow> u2 = u1
         | Some e2 \<Rightarrow>
             u2 = u1\<lparr>translation_stats :=
                        merged_group (translation_stats u1) (translation_stats_raw e2),
                      review_stats :=
                        merged_group (review_stats u1) (review_stats_raw e2)\<rparr>)"
  proof (cases "matched_entry (lang u) zs2")
    case None
    with wf l have "user_after u1 zs2 = Inr u1" by (simp add: user_after_no_match)
    with u1 None show ?thesis by (simp add: read_twice_def)
  next
    case (Some e2)
    with l have "matched_entry (lang u1) zs2 = Some e2" by simp
    with wf have "user_after u1 zs2 =
        Inr (u1\<lparr>translation_stats :=
                        merged_group (translation_stats u1) (translation_stats_raw e2),
                      review_stats :=
                        merged_group (review_stats u1) (review_stats_raw e2)\<rparr>)"
      by (simp add: user_after_match)
    with u1 Some show ?thesis by (simp add: read_twice_def)
  qed
next
  assume wf: "well_formed zs1 \<and> well_formed zs2"
  then obtain u1 where u1: "user_after u zs1 = Inr u1" and l: "lang u1 = lang u"
    using user_after_total[of zs1 u] by blast
  have keep: "user_id u1 = user_id u"
    using u1 wf
    by (cases "matched_entry (lang u) zs1") (auto simp: user_after_no_match user_after_match)
  show "\<forall>e2 t r. matched_entry (lang u) zs2 = Some e2 \<and>
        translation_stats_raw e2 = Some t \<and> t \<noteq> [] \<and>
        review_stats_raw e2 = Some r \<and> r \<noteq> [] \<longrightarrow>
        read_twice u zs1 zs2 = user_after u zs2"
  proof (intro allI impI)
    fix e2 t r
    assume a: "matched_entry (lang u) zs2 = Some e2 \<and>
        translation_stats_raw e2 = Some t \<and> t \<noteq> [] \<and>
        review_stats_raw e2 = Some r \<and> r \<noteq> []"
    then have m1: "matched_entry (lang u1) zs2 = Some e2" using l by simp
    from a wf have "user_after u zs2 =
        Inr (u\<lparr>translation_stats := set_total t, review_stats := set_total r\<rparr>)"
      by (simp add: user_after_match merged_group_replaces)
    moreover from a m1 wf have "user_after u1 zs2 =
        Inr (u1\<lparr>translation_stats := set_total t, review_stats := set_total r\<rparr>)"
      by (simp add: user_after_match merged_group_replaces)
    moreover have "u1\<lparr>translation_stats := set_total t, review_stats := set_total r\<rparr>
        = u\<lparr>translation_stats := set_total t, review_stats := set_total r\<rparr>"
      using l keep by simp
    ultimately show "read_twice u zs1 zs2 = user_after u zs2"
      using u1 by (simp add: read_twice_def)
  qed
qed

theorem repeated_merge_witness:
  "well_formed (payload [entry_both]) \<and>
   well_formed (payload [entry_other, entry_translations_only]) \<and>
   matched_entry (lang (User ''user-a'' ''lang-a'')) (payload [entry_other, entry_translations_only])
     = Some entry_translations_only \<and>
   read_twice (User ''user-a'' ''lang-a'') (payload [entry_both])
       (payload [entry_other, entry_translations_only]) =
     Inr \<lparr>user_id = ''user-a'', lang = ''lang-a'',
          translation_stats =
            [(''translated'', 1460), (''needReview'', 5), (''approved'', 459), (''rejected'', 2),
             (''total'', 1926)],
          review_stats = [(''approved'', 277), (''rejected'', 10), (''total'', 287)]\<rparr> \<and>
   matched_entry (lang (User ''user-a'' ''lang-a'')) (payload [entry_both]) = Some entry_both \<and>
   read_twice (User ''user-a'' ''lang-a'') (payload [entry_other, entry_translations_only])
       (payload [entry_both]) =
     user_after (User ''user-a'' ''lang-a'') (payload [entry_both]) \<and>
   read_twice (User ''user-a'' ''lang-a'') (payload [entry_both]) (payload [entry_both]) =
     user_after (User ''user-a'' ''lang-a'') (payload [entry_both])"
proof -
  let ?u = "User ''user-a'' ''lang-a''"
  let ?p = "payload [entry_both]" and ?q = "payload [entry_other, entry_translations_only]"
  have wp: "well_formed ?p"
    by (simp add: well_formed_def payload_def entry_both_def)
  have wq: "well_formed ?q"
    by (simp add: well_formed_def payload_def entry_other_def entry_translations_only_def)
  have mq: "matched_entry (lang ?u) ?q = Some entry_translations_only"
    by (simp add: matched_entry_def payload_def entry_other_def entry_translations_only_def
        User_def)
  have mp': "matched_entry (lang ?u) ?p = Some entry_both"
    by (simp add: matched_entry_def payload_def entry_both_def User_def)
  have first: "user_after ?u ?p =
     Inr \<lparr>user_id = ''user-a'', lang = ''lang-a'',
          translation_stats =
            [(''translated'', 3), (''needReview'', 6), (''approved'', 27), (''rejected'', 1),
             (''total'', 37)],
          review_stats = [(''approved'', 277), (''rejected'', 10), (''total'', 287)]\<rparr>"
    by (simp add: user_after_def read_from_zanata_stats_def payload_def entry_both_def
        User_def read_translation_def read_review_def truthy_def set_total_def
        dict_values_def Let_def)
  note pq = repeated_merge[of ?u ?q ?p]
  from pq[THEN conjunct2, THEN mp, OF conjI[OF wp wq], THEN conjunct1]
  obtain u1 u2 where u1: "user_after ?u ?p = Inr u1"
    and u2: "read_twice ?u ?p ?q = Inr u2"
    and c: "case matched_entry (lang ?u) ?q of
           None \<Rightarrow> u2 = u1
         | Some e2 \<Rightarrow>
             u2 = u1\<lparr>translation_stats :=
                        merged_group (translation_stats u1) (translation_stats_raw e2),
                      review_stats :=
                        merged_group (review_stats u1) (review_stats_raw e2)\<rparr>"
    by blast
  from u1 first have "u1 = \<lparr>user_id = ''user-a'', lang = ''lang-a'',
          translation_stats =
            [(''translated'', 3), (''needReview'', 6), (''approved'', 27), (''rejected'', 1),
             (''total'', 37)],
          review_stats = [(''approved'', 277), (''rejected'', 10), (''total'', 287)]\<rparr>"
    by simp
  with c have "u2 = \<lparr>user_id = ''user-a'', lang = ''lang-a'',
          translation_stats =
            [(''translated'', 1460), (''needReview'', 5), (''approved'', 459), (''rejected'', 2),
             (''total'', 1926)],
          review_stats = [(''approved'', 277), (''rejected'', 10), (''total'', 287)]\<rparr>"
    unfolding mq
    by (simp add: entry_translations_only_def merged_group_def set_total_def dict_values_def)
  with u2 have 1: "read_twice ?u ?p ?q =
     Inr \<lparr>user_id = ''user-a'', lang = ''lang-a'',
          translation_stats =
            [(''translated'', 1460), (''needReview'', 5), (''approved'', 459), (''rejected'', 2),
             (''total'', 1926)],
          review_stats = [(''approved'', 277), (''rejected'', 10), (''total'', 287)]\<rparr>"
    by simp
  note qp = repeated_merge[of ?u ?p ?q]
  have both: "matched_entry (lang ?u) ?p = Some entry_both \<and>
        translation_stats_raw entry_both =
          Some [(''translated'', 3), (''needReview'', 6), (''approved'', 27), (''rejected'', 1)] \<and>
        [(''translated'', 3), (''needReview'', 6), (''approved'', 27), (''rejected'', 1)] \<noteq> [] \<and>
        review_stats_raw entry_both = Some [(''approved'', 277), (''rejected'', 10)] \<and>
        [(''approved'', 277), (''rejected'', 10 :: int)] \<noteq> []"
    using mp' by (simp add: entry_both_def)
  have 2: "read_twice ?u ?q ?p = user_after ?u ?p"
    using qp[THEN conjunct2, THEN mp, OF conjI[OF wq wp], THEN conjunct2, rule_format, OF both] .
  have 3: "read_twice ?u ?p ?p = user_after ?u ?p"
    using qp[THEN conjunct1] .
  from wp wq mq 1 mp' 2 3 show ?thesis by (intro conjI)
qed

subsection \<open>Which aggregates are written\<close>

text \<open>
  C5. With the flag set, \<open>needs_output\<close> is true for every aggregate. With the flag unset
  it is true exactly when one of the maps the aggregate stores, its translation-stats or
  its review-stats, is non-empty. (The aggregate of this file stores one map of each
  group.)
\<close>

theorem needs_output_iff:
  "(include_no_activities \<longrightarrow> needs_output u include_no_activities) \<and>
   (\<not> include_no_activities \<longrightarrow>
      (needs_output u include_no_activities \<longleftrightarrow>
         translation_stats u \<noteq> [] \<or> review_stats u \<noteq> []))"
  by (simp add: needs_output_def truthy_def)

theorem needs_output_iff_witness:
  "needs_output (User ''user-a'' ''lang-a'') True \<and>
   \<not> needs_output (User ''user-a'' ''lang-a'') False \<and>
   translation_stats (User ''user-a'' ''lang-a'') = [] \<and>
   review_stats (User ''user-a'' ''lang-a'') = [] \<and>
   review_stats user_with_stats \<noteq> [] \<and>
   needs_output user_with_stats False"
proof -
  have e: "translation_stats (User ''user-a'' ''lang-a'') = []"
    "review_stats (User ''user-a'' ''lang-a'') = []"
    by (simp_all add: User_def)
  have n: "review_stats user_with_stats \<noteq> []"
    by (simp add: user_with_stats_def)
  have 1: "needs_output (User ''user-a'' ''lang-a'') True"
    using needs_output_iff[of True "User ''user-a'' ''lang-a''"] by simp
  have 2: "\<not> needs_output (User ''user-a'' ''lang-a'') False"
    using needs_output_iff[of False "User ''user-a'' ''lang-a''"] e by simp
  have 3: "needs_output user_with_stats False"
    using needs_output_iff[of False user_with_stats] n by simp
  from 1 2 e n 3 show ?thesis by (intro conjI)
qed

subsection \<open>The flattened row\<close>

lemma dict_get_map_of:
  "dict_get d k = map_of d k"
  by (induction d) auto

lemma dict_get_default_counter:
  "dict_get_default d k 0 = counter_or_zero d k"
  by (simp add: dict_get_default_def counter_or_zero_def dict_get_map_of)

text \<open>
  C6. The flattened row has exactly ten columns, in the order user id, language,
  translation total, translated, needReview, approved, rejected, review total, review
  approved, review rejected; each counter column holds the integer bound to its key in
  the stored map, and the integer \<open>0\<close> when the key has no binding. The title row has
  exactly ten names, one for each of these columns in the same order.
\<close>

theorem flattened_row:
  "length (convert_to_flattened_data u) = 10 \<and>
   length get_flattened_data_title = 10 \<and>
   zip get_flattened_data_title (convert_to_flattened_data u) =
     [(''user_id'', Str (user_id u)),
      (''lang'', Str (lang u)),
      (''translation-total'', Num (counter_or_zero (translation_stats u) ''total'')),
      (''translated'', Num (counter_or_zero (translation_stats u) ''translated'')),
      (''needReview'', Num (counter_or_zero (translation_stats u) ''needReview'')),
      (''approved'', Num (counter_or_zero (translation_stats u) ''approved'')),
      (''rejected'', Num (counter_or_zero (translation_stats u) ''rejected'')),
      (''review-total'', Num (counter_or_zero (review_stats u) ''total'')),
      (''review-approved'', Num (counter_or_zero (review_stats u) ''approved'')),
      (''review-rejected'', Num (counter_or_zero (review_stats u) ''rejected''))] \<and>
   (\<forall>k. k \<notin> set (dict_keys (translation_stats u)) \<longrightarrow>
        counter_or_zero (translation_stats u) k = 0) \<and>
   (\<forall>k. k \<notin> set (dict_keys (review_stats u)) \<longrightarrow>
        counter_or_zero (review_stats u) k = 0)"
proof -
  have z: "k \<notin> set (dict_keys d) \<Longrightarrow> counter_or_zero d k = 0" for d k
    by (simp add: counter_or_zero_def dict_keys_def map_of_eq_None_iff[THEN iffD2])
  show ?thesis
    by (simp add: convert_to_flattened_data_def get_flattened_data_title_def
        dict_get_default_counter z)
qed

theorem flattened_row_witness:
  "''translated'' \<notin> set (dict_keys (review_stats
       \<lparr>user_id = ''user-a'', lang = ''lang-a'', translation_stats = [],
        review_stats = [(''approved'', 250), (''rejected'', 31), (''total'', 281)]\<rparr>)) \<and>
   ''total'' \<notin> set (dict_keys (translation_stats
       \<lparr>user_id = ''user-a'', lang = ''lang-a'', translation_stats = [],
        review_stats = [(''approved'', 250), (''rejected'', 31), (''total'', 281)]\<rparr>)) \<and>
   convert_to_flattened_data
       \<lparr>user_id = ''user-a'', lang = ''lang-a'', translation_stats = [],
        review_stats = [(''approved'', 250), (''rejected'', 31), (''total'', 281)]\<rparr> =
     [Str ''user-a'', Str ''lang-a'', Num 0, Num 0, Num 0, Num 0, Num 0,
      Num 281, Num 250, Num 31]"
proof -
  let ?u = "\<lparr>user_id = ''user-a'', lang = ''lang-a'', translation_stats = [],
        review_stats = [(''approved'', 250), (''rejected'', 31), (''total'', 281)]\<rparr>"
  note th = flattened_row[of ?u]
  have a: "''translated'' \<notin> set (dict_keys (review_stats ?u))"
    and b: "''total'' \<notin> set (dict_keys (translation_stats ?u))"
    by (simp_all add: dict_keys_def)
  have l: "length (convert_to_flattened_data ?u) = length get_flattened_data_title"
    using th by simp
  have "map snd (zip get_flattened_data_title (convert_to_flattened_data ?u)) =
     [Str ''user-a'', Str ''lang-a'', Num 0, Num 0, Num 0, Num 0, Num 0,
      Num 281, Num 250, Num 31]"
    unfolding th[THEN conjunct2, THEN conjunct2, THEN conjunct1]
    by (simp add: counter_or_zero_def)
  then have "convert_to_flattened_data ?u =
     [Str ''user-a'', Str ''lang-a'', Num 0, Num 0, Num 0, Num 0, Num 0,
      Num 281, Num 250, Num 31]"
    using l by simp
  with a b show ?thesis by (intro conjI)
qed

subsection \<open>The serializable record\<close>

lemma user_after_keeps_translation:
  assumes "user_after u zs = Inr u'" and "\<not> carries_translation (lang u) zs"
  shows "translation_stats u' = translation_stats u"
proof -
  have wf: "well_formed zs" using assms(1) by (rule user_after_well_formed)
  show ?thesis
  proof (cases "matched_entry (lang u) zs")
    case None
    with wf assms(1) show ?thesis by (simp add: user_after_no_match)
  next
    case (Some e)
    with assms(2) have "merged_group (translation_stats u) (translation_stats_raw e)
        = translation_stats u"
      by (simp add: carries_translation_def merged_group_def split: option.splits)
    with user_after_match[OF wf Some] assms(1) show ?thesis by auto
  qed
qed

lemma user_after_keeps_review:
  assumes "user_after u zs = Inr u'" and "\<not> carries_review (lang u) zs"
  shows "review_stats u' = review_stats u"
proof -
  have wf: "well_formed zs" using assms(1) by (rule user_after_well_formed)
  show ?thesis
  proof (cases "matched_entry (lang u) zs")
    case None
    with wf assms(1) show ?thesis by (simp add: user_after_no_match)
  next
    case (Some e)
    with assms(2) have "merged_group (review_stats u) (review_stats_raw e)
        = review_stats u"
      by (simp add: carries_review_def merged_group_def split: option.splits)
    with user_after_match[OF wf Some] assms(1) show ?thesis by auto
  qed
qed

lemma read_all_keeps_translation:
  "read_all u zss = Inr u' \<Longrightarrow> \<forall>zs \<in> set zss. \<not> carries_translation (lang u) zs \<Longrightarrow>
   translation_stats u' = translation_stats u"
proof (induction zss arbitrary: u)
  case Nil
  then show ?case by simp
next
  case (Cons zs zss)
  from Cons.prems(1) obtain u1 where u1: "user_after u zs = Inr u1"
    and rest: "read_all u1 zss = Inr u'"
    by (auto split: sum.splits)
  have l: "lang u1 = lang u" using u1 by (rule user_after_lang)
  have "translation_stats u1 = translation_stats u"
    using u1 Cons.prems(2) by (simp add: user_after_keeps_translation)
  moreover have "translation_stats u' = translation_stats u1"
    using rest Cons.prems(2) l by (intro Cons.IH) simp_all
  ultimately show ?case by simp
qed

lemma read_all_keeps_review:
  "read_all u zss = Inr u' \<Longrightarrow> \<forall>zs \<in> set zss. \<not> carries_review (lang u) zs \<Longrightarrow>
   review_stats u' = review_stats u"
proof (induction zss arbitrary: u)
  case Nil
  then show ?case by simp
next
  case (Cons zs zss)
  from Cons.prems(1) obtain u1 where u1: "user_after u zs = Inr u1"
    and rest: "read_all u1 zss = Inr u'"
    by (auto split: sum.splits)
  have l: "lang u1 = lang u" using u1 by (rule user_after_lang)
  have "review_stats u1 = review_stats u"
    using u1 Cons.prems(2) by (simp add: user_after_keeps_review)
  moreover have "review_stats u' = review_stats u1"
    using rest Cons.prems(2) l by (intro Cons.IH) simp_all
  ultimately show ?case by simp
qed

text \<open>
  C8. The serializable record has exactly four keys: the user id, the language code and
  the two groups, each group bound to the map the aggregate stores. An aggregate that was
  created and then read payloads none of which records activity of a group has the empty
  map for that group in its record, while its flattened row shows the integer \<open>0\<close> in
  the group's total column.
\<close>

theorem serializable_record:
  "map fst (convert_to_serializable_data u) =
     [''user_id'', ''lang'', ''translation-stats'', ''review-stats''] \<and>
   map_of (convert_to_serializable_data u) ''user_id'' = Some (JString (user_id u)) \<and>
   map_of (convert_to_serializable_data u) ''lang'' = Some (JString (lang u)) \<and>
   map_of (convert_to_serializable_data u) ''translation-stats''
     = Some (JObject (translation_stats u)) \<and>
   map_of (convert_to_serializable_data u) ''review-stats'' = Some (JObject (review_stats u)) \<and>
   (read_all (User uid l) zss = Inr u \<and> (\<forall>zs \<in> set zss. \<not> carries_translation l zs) \<longrightarrow>
      map_of (convert_to_serializable_data u) ''translation-stats'' = Some (JObject []) \<and>
      convert_to_flattened_data u ! 2 = Num 0) \<and>
   (read_all (User uid l) zss = Inr u \<and> (\<forall>zs \<in> set zss. \<not> carries_review l zs) \<longrightarrow>
      map_of (convert_to_serializable_data u) ''review-stats'' = Some (JObject []) \<and>
      convert_to_flattened_data u ! 7 = Num 0)"
proof -
  have t: "translation_stats u = []"
    if "read_all (User uid l) zss = Inr u" "\<forall>zs \<in> set zss. \<not> carries_translation l zs"
    using read_all_keeps_translation[of "User uid l" zss u] that by (simp add: User_def)
  have r: "review_stats u = []"
    if "read_all (User uid l) zss = Inr u" "\<forall>zs \<in> set zss. \<not> carries_review l zs"
    using read_all_keeps_review[of "User uid l" zss u] that by (simp add: User_def)
  have 1: "map fst (convert_to_serializable_data u) =
     [''user_id'', ''lang'', ''translation-stats'', ''review-stats'']"
    by (simp add: convert_to_serializable_data_def)
  have 2: "map_of (convert_to_serializable_data u) ''user_id'' = Some (JString (user_id u))"
    "map_of (convert_to_serializable_data u) ''lang'' = Some (JString (lang u))"
    "map_of (convert_to_serializable_data u) ''translation-stats''
       = Some (JObject (translation_stats u))"
    "map_of (convert_to_serializable_data u) ''review-stats'' = Some (JObject (review_stats u))"
    by (simp_all add: convert_to_serializable_data_def)
  have 3: "convert_to_flattened_data u ! 2 = Num 0" if "translation_stats u = []"
    using that by (simp add: convert_to_flattened_data_def dict_get_default_def)
  have 4: "convert_to_flattened_data u ! 7 = Num 0" if "review_stats u = []"
    using that by (simp add: convert_to_flattened_data_def dict_get_default_def)
  from 1 2 t r 3 4 show ?thesis by simp
qed

theorem serializable_record_witness:
  "read_all (User ''user-a'' ''lang-a'') [payload [entry_other], payload [entry_review_only]] =
     Inr \<lparr>user_id = ''user-a'', lang = ''lang-a'', translation_stats = [],
          review_stats = [(''approved'', 250), (''rejected'', 31), (''total'', 281)]\<rparr> \<and>
   \<not> carries_translation ''lang-a'' (payload [entry_other]) \<and>
   \<not> carries_translation ''lang-a'' (payload [entry_review_only]) \<and>
   convert_to_serializable_data
       \<lparr>user_id = ''user-a'', lang = ''lang-a'', translation_stats = [],
        review_stats = [(''approved'', 250), (''rejected'', 31), (''total'', 281)]\<rparr> =
     [(''user_id'', JString ''user-a''), (''lang'', JString ''lang-a''),
      (''translation-stats'', JObject []),
      (''review-stats'', JObject [(''approved'', 250), (''rejected'', 31), (''total'', 281)])] \<and>
   map_of (convert_to_serializable_data
       \<lparr>user_id = ''user-a'', lang = ''lang-a'', translation_stats = [],
        review_stats = [(''approved'', 250), (''rejected'', 31), (''total'', 281)]\<rparr>)
     ''translation-stats'' = Some (JObject []) \<and>
   convert_to_flattened_data
       \<lparr>user_id = ''user-a'', lang = ''lang-a'', translation_stats = [],
        review_stats = [(''approved'', 250), (''rejected'', 31), (''total'', 281)]\<rparr> ! 2 = Num 0"
proof -
  let ?u = "\<lparr>user_id = ''user-a'', lang = ''lang-a'', translation_stats = [],
        review_stats = [(''approved'', 250), (''rejected'', 31), (''total'', 281)]\<rparr>"
  let ?zss = "[payload [entry_other], payload [entry_review_only]]"
  have ra: "read_all (User ''user-a'' ''lang-a'') ?zss = Inr ?u"
    by (simp add: user_after_def read_from_zanata_stats_def payload_def entry_other_def
        entry_review_only_def User_def read_translation_def read_review_def truthy_def
        set_total_def dict_values_def Let_def)
  have n1: "\<not> carries_translation ''lang-a'' (payload [entry_other])"
    and n2: "\<not> carries_translation ''lang-a'' (payload [entry_review_only])"
    by (simp_all add: carries_translation_def matched_entry_def payload_def entry_other_def
        entry_review_only_def)
  then have n: "\<forall>zs \<in> set ?zss. \<not> carries_translation ''lang-a'' zs"
    by simp
  note th = serializable_record[of ?u "''user-a''" "''lang-a''" ?zss]
  from th[THEN conjunct2, THEN conjunct2, THEN conjunct2, THEN conjunct2, THEN conjunct2,
      THEN conjunct1, THEN mp, OF conjI[OF ra n]]
  have e: "map_of (convert_to_serializable_data ?u) ''translation-stats'' = Some (JObject [])"
    and f: "convert_to_flattened_data ?u ! 2 = Num 0"
    by blast+
  have s: "convert_to_serializable_data ?u =
     [(''user_id'', JString ''user-a''), (''lang'', JString ''lang-a''),
      (''translation-stats'', JObject []),
      (''review-stats'', JObject [(''approved'', 250), (''rejected'', 31), (''total'', 281)])]"
    by (simp add: convert_to_serializable_data_def)
  from ra n1 n2 s e f show ?thesis by (intro conjI)
qed

subsection \<open>The order of the report\<close>

lemma user_lt_iff:
  "user_lt a b \<longleftrightarrow> lang a < lang b \<or> (lang a = lang b \<and> user_id a < user_id b)"
  by (auto simp: user_lt_def)

lemma user_lt_irrefl: "\<not> user_lt a a"
  by (simp add: user_lt_iff)

lemma user_lt_trans: "user_lt a b \<Longrightarrow> user_lt b c \<Longrightarrow> user_lt a c"
  by (auto simp: user_lt_iff)

lemma user_lt_asym: "user_lt a b \<Longrightarrow> \<not> user_lt b a"
  by (auto simp: user_lt_iff)

lemma user_lt_incomparable:
  "\<not> user_lt a b \<and> \<not> user_lt b a \<longleftrightarrow> lang a = lang b \<and> user_id a = user_id b"
  by (auto simp: user_lt_iff)

lemma not_user_lt_trans: "\<not> user_lt b a \<Longrightarrow> \<not> user_lt c b \<Longrightarrow> \<not> user_lt c a"
  by (auto simp: user_lt_iff not_less)

lemma not_user_lt_keys:
  "\<not> user_lt b a \<Longrightarrow> lang a \<le> lang b \<and> (lang a = lang b \<longrightarrow> user_id a \<le> user_id b)"
  by (auto simp: user_lt_iff not_less)

lemma set_insert_lt: "set (insert_lt x ys) = insert x (set ys)"
  by (induction ys) auto

lemma mset_insert_lt: "mset (insert_lt x ys) = add_mset x (mset ys)"
  by (induction ys) auto

lemma sorted_insert_lt:
  "sorted_wrt (\<lambda>a b. \<not> user_lt b a) ys \<Longrightarrow> sorted_wrt (\<lambda>a b. \<not> user_lt b a) (insert_lt x ys)"
proof (induction ys)
  case Nil
  then show ?case by simp
next
  case (Cons y ys)
  show ?case
  proof (cases "user_lt y x")
    case True
    then have "\<not> user_lt x y" by (rule user_lt_asym)
    with True Cons show ?thesis by (auto simp: set_insert_lt)
  next
    case False
    have "\<not> user_lt z x" if "z \<in> set ys" for z
    proof -
      from that Cons.prems have "\<not> user_lt z y" by simp
      with False show ?thesis by (rule not_user_lt_trans)
    qed
    with False Cons.prems show ?thesis by simp
  qed
qed

lemma mset_sorted_users: "mset (sorted_users xs) = mset xs"
  by (induction xs) (simp_all add: sorted_users_def mset_insert_lt)

lemma sorted_sorted_users: "sorted_wrt (\<lambda>a b. \<not> user_lt b a) (sorted_users xs)"
  by (induction xs) (simp_all add: sorted_users_def sorted_insert_lt)

lemma sorted_users_keys:
  assumes "i < j" and "j < length (sorted_users xs)"
  shows "lang (sorted_users xs ! i) \<le> lang (sorted_users xs ! j) \<and>
     (lang (sorted_users xs ! i) = lang (sorted_users xs ! j) \<longrightarrow>
        user_id (sorted_users xs ! i) \<le> user_id (sorted_users xs ! j))"
proof -
  have "\<not> user_lt (sorted_users xs ! j) (sorted_users xs ! i)"
    using sorted_sorted_users[of xs] assms by (simp add: sorted_wrt_iff_nth_less)
  then show ?thesis by (rule not_user_lt_keys)
qed

text \<open>
  C7. \<open>__lt__\<close> is a strict weak ordering: irreflexive, transitive, asymmetric, with a
  transitive incomparability; it compares the language codes first and the user ids
  second, both in the order of strings, and two aggregates that differ in language or
  user id are comparable. A list sorted with it is a permutation of the input in which
  the language codes ascend and, among equal language codes, the user ids ascend; so the
  aggregates of one language stand next to each other.
\<close>

theorem comparator_order:
  "\<not> user_lt a a \<and>
   (user_lt a b \<and> user_lt b c \<longrightarrow> user_lt a c) \<and>
   (user_lt a b \<longrightarrow> \<not> user_lt b a) \<and>
   (\<not> user_lt a b \<and> \<not> user_lt b a \<and> \<not> user_lt b c \<and> \<not> user_lt c b \<longrightarrow>
      \<not> user_lt a c \<and> \<not> user_lt c a) \<and>
   (user_lt a b \<longleftrightarrow> lang a < lang b \<or> (lang a = lang b \<and> user_id a < user_id b)) \<and>
   (lang a \<noteq> lang b \<or> user_id a \<noteq> user_id b \<longrightarrow> user_lt a b \<or> user_lt b a) \<and>
   mset (sorted_users xs) = mset xs \<and>
   (\<forall>i j. i < j \<and> j < length (sorted_users xs) \<longrightarrow>
      lang (sorted_users xs ! i) \<le> lang (sorted_users xs ! j) \<and>
      (lang (sorted_users xs ! i) = lang (sorted_users xs ! j) \<longrightarrow>
         user_id (sorted_users xs ! i) \<le> user_id (sorted_users xs ! j))) \<and>
   (\<forall>i j k. i < j \<and> j < k \<and> k < length (sorted_users xs) \<and>
      lang (sorted_users xs ! i) = lang (sorted_users xs ! k) \<longrightarrow>
      lang (sorted_users xs ! j) = lang (sorted_users xs ! i))"
proof -
  have 1: "user_lt a b \<and> user_lt b c \<longrightarrow> user_lt a c"
    by (blast intro: user_lt_trans)
  have 2: "user_lt a b \<longrightarrow> \<not> user_lt b a"
    by (blast dest: user_lt_asym)
  have 3: "\<not> user_lt a b \<and> \<not> user_lt b a \<and> \<not> user_lt b c \<and> \<not> user_lt c b \<longrightarrow>
      \<not> user_lt a c \<and> \<not> user_lt c a"
    using not_user_lt_trans[of b c a] not_user_lt_trans[of b a c] by blast
  have 4: "lang a \<noteq> lang b \<or> user_id a \<noteq> user_id b \<longrightarrow> user_lt a b \<or> user_lt b a"
    using user_lt_incomparable[of a b] by blast
  have 5: "\<forall>i j. i < j \<and> j < length (sorted_users xs) \<longrightarrow>
      lang (sorted_users xs ! i) \<le> lang (sorted_users xs ! j) \<and>
      (lang (sorted_users xs ! i) = lang (sorted_users xs ! j) \<longrightarrow>
         user_id (sorted_users xs ! i) \<le> user_id (sorted_users xs ! j))"
    using sorted_users_keys by blast
  have 6: "\<forall>i j k. i < j \<and> j < k \<and> k < length (sorted_users xs) \<and>
      lang (sorted_users xs ! i) = lang (sorted_users xs ! k) \<longrightarrow>
      lang (sorted_users xs ! j) = lang (sorted_users xs ! i)"
  proof (intro allI impI)
    fix i j k
    assume a: "i < j \<and> j < k \<and> k < length (sorted_users xs) \<and>
      lang (sorted_users xs ! i) = lang (sorted_users xs ! k)"
    then have "lang (sorted_users xs ! i) \<le> lang (sorted_users xs ! j)"
      using sorted_users_keys[of i j xs] by simp
    moreover from a have "lang (sorted_users xs ! j) \<le> lang (sorted_users xs ! k)"
      using sorted_users_keys[of j k xs] by simp
    ultimately show "lang (sorted_users xs ! j) = lang (sorted_users xs ! i)"
      using a by simp
  qed
  from user_lt_irrefl 1 2 3 user_lt_iff 4 mset_sorted_users 5 6 show ?thesis
    by (intro conjI)
qed

theorem comparator_order_witness:
  "user_lt (User ''user-a'' ''lang-x'') (User ''user-b'' ''lang-x'') \<and>
   user_lt (User ''user-b'' ''lang-x'') (User ''user-a'' ''lang-y'') \<and>
   user_lt (User ''user-a'' ''lang-x'') (User ''user-a'' ''lang-y'') \<and>
   \<not> user_lt (User ''user-a'' ''lang-y'') (User ''user-a'' ''lang-x'') \<and>
   sorted_users
       [User ''user-a'' ''lang-y'', User ''user-b'' ''lang-x'', User ''user-a'' ''lang-x''] =
     [User ''user-a'' ''lang-x'', User ''user-b'' ''lang-x'', User ''user-a'' ''lang-y''] \<and>
   mset (sorted_users
       [User ''user-a'' ''lang-y'', User ''user-b'' ''lang-x'', User ''user-a'' ''lang-x'']) =
     mset [User ''user-a'' ''lang-y'', User ''user-b'' ''lang-x'', User ''user-a'' ''lang-x'']"
proof -
  let ?u1 = "User ''user-a'' ''lang-x''" and ?u2 = "User ''user-b'' ''lang-x''"
    and ?u3 = "User ''user-a'' ''lang-y''"
  note th = comparator_order[of ?u1 ?u2 ?u3 "[?u3, ?u2, ?u1]"]
  have 12: "user_lt ?u1 ?u2"
    by (simp add: user_lt_def User_def less_char_def)
  have 23: "user_lt ?u2 ?u3"
    by (simp add: user_lt_def User_def less_char_def)
  from th 12 23 have 13: "user_lt ?u1 ?u3" by blast
  from comparator_order[of ?u1 ?u3] 13 have 31: "\<not> user_lt ?u3 ?u1" by blast
  have s: "sorted_users [?u3, ?u2, ?u1] = [?u1, ?u2, ?u3]"
    using 12 23 13 31 by (simp add: sorted_users_def)
  from th have m: "mset (sorted_users [?u3, ?u2, ?u1]) = mset [?u3, ?u2, ?u1]" by blast
  from 12 23 13 31 s m show ?thesis by (intro conjI)
qed

subsection \<open>The rollup\<close>

lemma add_scope_fold:
  "foldl add_scope acc ms =
     map (\<lambda>(k, v). (k, v + sum_list (map (\<lambda>m. counter_or_zero m k) ms))) acc"
proof (induction ms arbitrary: acc)
  case Nil
  then show ?case by simp
next
  case (Cons m ms)
  have "foldl add_scope acc (m # ms) = foldl add_scope (add_scope acc m) ms"
    by simp
  also have "\<dots> = map (\<lambda>(k, v). (k, v + sum_list (map (\<lambda>m. counter_or_zero m k) ms)))
      (add_scope acc m)"
    by (rule Cons.IH)
  also have "\<dots> =
      map (\<lambda>(k, v). (k, v + sum_list (map (\<lambda>m. counter_or_zero m k) (m # ms)))) acc"
    by (simp add: add_scope_def dict_get_default_counter o_def case_prod_beta add.assoc)
  finally show ?case .
qed

lemma counter_or_zero_empty [simp]: "counter_or_zero [] k = 0"
  by (simp add: counter_or_zero_def)

lemma counter_sum_contributing:
  "counter_sum (filter truthy maps) k = counter_sum maps k"
  by (induction maps) (simp_all add: counter_sum_def truthy_def)

lemma filter_truthy_empty:
  "filter truthy maps = [] \<longleftrightarrow> (\<forall>m \<in> set maps. m = [])"
  by (induction maps) (auto simp: truthy_def)

lemma rollup_group_closed:
  assumes "''total'' \<notin> set ks"
  shows "rollup_group ks maps =
     (if \<forall>m \<in> set maps. m = [] then []
      else map (\<lambda>k. (k, counter_sum maps k)) ks @
           [(''total'', sum_list (map (counter_sum maps) ks))])"
proof (cases "\<forall>m \<in> set maps. m = []")
  case True
  then show ?thesis by (simp add: rollup_group_def filter_truthy_empty)
next
  case False
  let ?acc = "map (\<lambda>k. (k, counter_sum maps k)) ks"
  have acc: "foldl add_scope (map (\<lambda>k. (k, 0)) ks) (filter truthy maps) = ?acc"
    using counter_sum_contributing[of maps]
    by (simp add: add_scope_fold o_def counter_sum_def)
  have "''total'' \<notin> set (dict_keys ?acc)"
    using assms by (simp add: dict_keys_def o_def)
  then have "set_total ?acc = ?acc @ [(''total'', sum_list (dict_values ?acc))]"
    by (rule set_total_fresh)
  moreover have "dict_values ?acc = map (counter_sum maps) ks"
    by (simp add: dict_values_def o_def)
  ultimately show ?thesis
    using False acc by (simp add: rollup_group_def filter_truthy_empty)
qed

lemma counter_of_rollup:
  assumes "''total'' \<notin> set ks" and "k \<in> set ks"
  shows "counter_or_zero (rollup_group ks maps) k = counter_sum maps k"
proof (cases "\<forall>m \<in> set maps. m = []")
  case True
  then have "counter_sum maps k = 0"
    by (induction maps) (simp_all add: counter_sum_def)
  with True assms(1) show ?thesis by (simp add: rollup_group_closed)
next
  case False
  have "map_of (map (\<lambda>k. (k, counter_sum maps k)) ks) k = Some (counter_sum maps k)"
    using assms(2) by (induction ks) auto
  moreover have "rollup_group ks maps =
      map (\<lambda>k. (k, counter_sum maps k)) ks @
        [(''total'', sum_list (map (counter_sum maps) ks))]"
    by (simp only: rollup_group_closed[OF assms(1)] False if_False)
  ultimately show ?thesis
    by (simp add: counter_or_zero_def map_add_def)
qed

lemma total_of_rollup:
  assumes "''total'' \<notin> set ks"
  shows "counter_or_zero (rollup_group ks maps) ''total'' = sum_list (map (counter_sum maps) ks)"
proof (cases "\<forall>m \<in> set maps. m = []")
  case True
  then have "counter_sum maps k = 0" for k
    by (induction maps) (simp_all add: counter_sum_def)
  then have "sum_list (map (counter_sum maps) ks) = 0"
    by (induction ks) simp_all
  with True assms show ?thesis by (simp add: rollup_group_closed)
next
  case False
  have "map_of (map (\<lambda>k. (k, counter_sum maps k)) ks) ''total'' = None"
    using assms by (induction ks) auto
  moreover have "rollup_group ks maps =
      map (\<lambda>k. (k, counter_sum maps k)) ks @
        [(''total'', sum_list (map (counter_sum maps) ks))]"
    by (simp only: rollup_group_closed[OF assms] False if_False)
  ultimately show ?thesis
    by (simp add: counter_or_zero_def map_add_def)
qed

lemma sum_of_totals:
  assumes "\<forall>m \<in> set maps. counter_or_zero m ''total'' = sum_list (map (counter_or_zero m) ks)"
  shows "sum_list (map (counter_sum maps) ks) = counter_sum maps ''total''"
  using assms
proof (induction maps)
  case Nil
  show ?case by (induction ks) (simp_all add: counter_sum_def)
next
  case (Cons m maps)
  have split: "sum_list (map (counter_sum (m # maps)) ks) =
      sum_list (map (counter_or_zero m) ks) + sum_list (map (counter_sum maps) ks)"
    by (induction ks) (simp_all add: counter_sum_def)
  from Cons show ?case
    by (simp add: split) (simp add: counter_sum_def)
qed

lemma stored_records_computeTotal [simp]:
  "stored_records (computeTotal a) = stored_records a"
  by (simp add: stored_records_def computeTotal_def)

lemma rollup_group_keys:
  assumes "''total'' \<notin> set ks" and "\<exists>m \<in> set maps. m \<noteq> []"
  shows "dict_keys (rollup_group ks maps) = ks @ [''total'']"
proof -
  from assms(2) have "\<not> (\<forall>m \<in> set maps. m = [])" by simp
  then have "rollup_group ks maps =
      map (\<lambda>k. (k, counter_sum maps k)) ks @
        [(''total'', sum_list (map (counter_sum maps) ks))]"
    by (simp only: rollup_group_closed[OF assms(1)] if_False)
  then show ?thesis by (simp add: dict_keys_def o_def)
qed

lemma rollup_group_total:
  assumes "''total'' \<notin> set ks"
  shows "counter_or_zero (rollup_group ks maps) ''total'' =
     sum_list (map (counter_or_zero (rollup_group ks maps)) ks)"
proof -
  have "map (counter_or_zero (rollup_group ks maps)) ks = map (counter_sum maps) ks"
    using assms by (simp add: counter_of_rollup)
  then show ?thesis
    by (simp only: total_of_rollup[OF assms])
qed

lemma rollup_group_none:
  "\<forall>m \<in> set maps. m = [] \<Longrightarrow> rollup_group ks maps = []"
  by (simp add: rollup_group_def filter_truthy_empty)

lemma rollup_group_sum_of_totals:
  assumes "''total'' \<notin> set ks"
    and "\<forall>m \<in> set maps. counter_or_zero m ''total'' = sum_list (map (counter_or_zero m) ks)"
  shows "counter_or_zero (rollup_group ks maps) ''total'' = counter_sum maps ''total''"
  using assms by (simp add: total_of_rollup sum_of_totals)

text \<open>
  C2. After the rollup, the rolled-up entry is present, and with \<open>T\<close> and \<open>R\<close> its
  translation and review groups and the sums taken over all scopes the aggregate stores
  (a missing key counting as zero): each of the four translation counters of \<open>T\<close> and
  each of the two review counters of \<open>R\<close> is the sum of that counter over the scopes; if
  some scope has a non-empty map for a group, the keys of the rolled-up group are all
  its canonical counters and \<open>total\<close>, with \<open>total\<close> the sum of the rolled-up counters; if
  no scope has a non-empty map for a group, the rolled-up group is the empty mapping;
  and when in every scope \<open>total\<close> is the sum of the canonical counters, as the merge
  writes it, the rolled-up \<open>total\<close> is also the sum of the scopes' totals.
\<close>

theorem rollup_totals:
  "\<exists>T R. rollup (computeTotal a) = Some (T, R) \<and>
     (\<forall>k \<in> set translation_fields.
        counter_or_zero T k = counter_sum (map fst (stored_records (computeTotal a))) k) \<and>
     (\<forall>k \<in> set review_fields.
        counter_or_zero R k = counter_sum (map snd (stored_records (computeTotal a))) k) \<and>
     ((\<exists>r \<in> set (stored_records (computeTotal a)). fst r \<noteq> []) \<longrightarrow>
        dict_keys T = translation_fields @ [''total''] \<and>
        counter_or_zero T ''total'' = sum_list (map (counter_or_zero T) translation_fields)) \<and>
     ((\<exists>r \<in> set (stored_records (computeTotal a)). snd r \<noteq> []) \<longrightarrow>
        dict_keys R = review_fields @ [''total''] \<and>
        counter_or_zero R ''total'' = sum_list (map (counter_or_zero R) review_fields)) \<and>
     ((\<forall>r \<in> set (stored_records (computeTotal a)). fst r = []) \<longrightarrow> T = []) \<and>
     ((\<forall>r \<in> set (stored_records (computeTotal a)). snd r = []) \<longrightarrow> R = []) \<and>
     ((\<forall>r \<in> set (stored_records (computeTotal a)).
          counter_or_zero (fst r) ''total'' =
            sum_list (map (counter_or_zero (fst r)) translation_fields)) \<longrightarrow>
        counter_or_zero T ''total'' =
          counter_sum (map fst (stored_records (computeTotal a))) ''total'') \<and>
     ((\<forall>r \<in> set (stored_records (computeTotal a)).
          counter_or_zero (snd r) ''total'' =
            sum_list (map (counter_or_zero (snd r)) review_fields)) \<longrightarrow>
        counter_or_zero R ''total'' =
          counter_sum (map snd (stored_records (computeTotal a))) ''total'')"
proof -
  let ?ts = "map fst (stored_records a)" and ?rs = "map snd (stored_records a)"
  let ?T = "rollup_group translation_fields ?ts" and ?R = "rollup_group review_fields ?rs"
  have nt: "''total'' \<notin> set translation_fields" and nr: "''total'' \<notin> set review_fields"
    by (simp_all add: translation_fields_def review_fields_def)
  have 0: "rollup (computeTotal a) = Some (?T, ?R)"
    by (simp add: computeTotal_def)
  have 1: "\<forall>k \<in> set translation_fields. counter_or_zero ?T k = counter_sum ?ts k"
    using nt by (simp add: counter_of_rollup)
  have 2: "\<forall>k \<in> set review_fields. counter_or_zero ?R k = counter_sum ?rs k"
    using nr by (simp add: counter_of_rollup)
  have 3: "(\<exists>r \<in> set (stored_records a). fst r \<noteq> []) \<longrightarrow>
        dict_keys ?T = translation_fields @ [''total''] \<and>
        counter_or_zero ?T ''total'' = sum_list (map (counter_or_zero ?T) translation_fields)"
  proof
    assume "\<exists>r \<in> set (stored_records a). fst r \<noteq> []"
    then have "\<exists>m \<in> set ?ts. m \<noteq> []" by auto
    with nt show "dict_keys ?T = translation_fields @ [''total''] \<and>
        counter_or_zero ?T ''total'' = sum_list (map (counter_or_zero ?T) translation_fields)"
      using rollup_group_keys[of translation_fields ?ts]
        rollup_group_total[of translation_fields ?ts] by blast
  qed
  have 4: "(\<exists>r \<in> set (stored_records a). snd r \<noteq> []) \<longrightarrow>
        dict_keys ?R = review_fields @ [''total''] \<and>
        counter_or_zero ?R ''total'' = sum_list (map (counter_or_zero ?R) review_fields)"
  proof
    assume "\<exists>r \<in> set (stored_records a). snd r \<noteq> []"
    then have "\<exists>m \<in> set ?rs. m \<noteq> []" by auto
    with nr show "dict_keys ?R = review_fields @ [''total''] \<and>
        counter_or_zero ?R ''total'' = sum_list (map (counter_or_zero ?R) review_fields)"
      using rollup_group_keys[of review_fields ?rs]
        rollup_group_total[of review_fields ?rs] by blast
  qed
  have 5: "(\<forall>r \<in> set (stored_records a). fst r = []) \<longrightarrow> ?T = []"
    by (simp add: rollup_group_none)
  have 6: "(\<forall>r \<in> set (stored_records a). snd r = []) \<longrightarrow> ?R = []"
    by (simp add: rollup_group_none)
  have 7: "(\<forall>r \<in> set (stored_records a).
          counter_or_zero (fst r) ''total'' =
            sum_list (map (counter_or_zero (fst r)) translation_fields)) \<longrightarrow>
        counter_or_zero ?T ''total'' = counter_sum ?ts ''total''"
    using nt by (simp add: rollup_group_sum_of_totals)
  have 8: "(\<forall>r \<in> set (stored_records a).
          counter_or_zero (snd r) ''total'' =
            sum_list (map (counter_or_zero (snd r)) review_fields)) \<longrightarrow>
        counter_or_zero ?R ''total'' = counter_sum ?rs ''total''"
    using nr by (simp add: rollup_group_sum_of_totals)
  from 0 1 2 3 4 5 6 7 8 show ?thesis
    unfolding stored_records_computeTotal by blast
qed

theorem rollup_totals_witness:
  "rollup (computeTotal test_aggregate) =
     Some ([(''translated'', 1463), (''needReview'', 11), (''approved'', 486), (''rejected'', 3),
            (''total'', 1963)],
           [(''approved'', 527), (''rejected'', 41), (''total'', 568)]) \<and>
   ''translated'' \<in> set translation_fields \<and>
   counter_sum (map fst (stored_records (computeTotal test_aggregate))) ''translated'' = 1463 \<and>
   ''rejected'' \<in> set review_fields \<and>
   counter_sum (map snd (stored_records (computeTotal test_aggregate))) ''rejected'' = 41 \<and>
   counter_sum (map fst (stored_records (computeTotal test_aggregate))) ''total'' = 1963 \<and>
   counter_sum (map snd (stored_records (computeTotal test_aggregate))) ''total'' = 568 \<and>
   rollup (computeTotal \<lparr>scopes = [(''proj-1'', [(''master'', ([], []))])], rollup = None\<rparr>)
     = Some ([], [])"
proof -
  let ?a = test_aggregate
  let ?T = "[(''translated'', 1463), (''needReview'', 11), (''approved'', 486),
             (''rejected'', 3), (''total'', 1963 :: int)]"
  let ?R = "[(''approved'', 527), (''rejected'', 41), (''total'', 568 :: int)]"
  have sr: "stored_records (computeTotal ?a) =
      [([(''translated'', 3), (''needReview'', 6), (''approved'', 27), (''rejected'', 1),
         (''total'', 37)],
        [(''approved'', 277), (''rejected'', 10), (''total'', 287)]),
       ([(''translated'', 1460), (''needReview'', 5), (''approved'', 459),
         (''rejected'', 2), (''total'', 1926)], []),
       ([], [(''approved'', 250), (''rejected'', 31), (''total'', 281)])]"
    by (simp add: stored_records_def computeTotal_def test_aggregate_def)
  from rollup_totals[of ?a] obtain T R where
    r: "rollup (computeTotal ?a) = Some (T, R)"
    and t: "\<forall>k \<in> set translation_fields.
        counter_or_zero T k = counter_sum (map fst (stored_records (computeTotal ?a))) k"
    and v: "\<forall>k \<in> set review_fields.
        counter_or_zero R k = counter_sum (map snd (stored_records (computeTotal ?a))) k"
    and kt: "(\<exists>r \<in> set (stored_records (computeTotal ?a)). fst r \<noteq> []) \<longrightarrow>
        dict_keys T = translation_fields @ [''total''] \<and>
        counter_or_zero T ''total'' = sum_list (map (counter_or_zero T) translation_fields)"
    and kr: "(\<exists>r \<in> set (stored_records (computeTotal ?a)). snd r \<noteq> []) \<longrightarrow>
        dict_keys R = review_fields @ [''total''] \<and>
        counter_or_zero R ''total'' = sum_list (map (counter_or_zero R) review_fields)"
    and st: "(\<forall>r \<in> set (stored_records (computeTotal ?a)).
          counter_or_zero (fst r) ''total'' =
            sum_list (map (counter_or_zero (fst r)) translation_fields)) \<longrightarrow>
        counter_or_zero T ''total'' =
          counter_sum (map fst (stored_records (computeTotal ?a))) ''total''"
    and sv: "(\<forall>r \<in> set (stored_records (computeTotal ?a)).
          counter_or_zero (snd r) ''total'' =
            sum_list (map (counter_or_zero (snd r)) review_fields)) \<longrightarrow>
        counter_or_zero R ''total'' =
          counter_sum (map snd (stored_records (computeTotal ?a))) ''total''"
    by blast
  have f1: "''translated'' \<in> set translation_fields"
    by (simp add: translation_fields_def)
  have f2: "''rejected'' \<in> set review_fields"
    by (simp add: review_fields_def)
  have c1: "counter_sum (map fst (stored_records (computeTotal ?a))) ''translated'' = 1463"
    unfolding sr by (simp add: counter_sum_def counter_or_zero_def)
  have c2: "counter_sum (map snd (stored_records (computeTotal ?a))) ''rejected'' = 41"
    unfolding sr by (simp add: counter_sum_def counter_or_zero_def)
  have c3: "counter_sum (map fst (stored_records (computeTotal ?a))) ''total'' = 1963"
    unfolding sr by (simp add: counter_sum_def counter_or_zero_def)
  have c4: "counter_sum (map snd (stored_records (computeTotal ?a))) ''total'' = 568"
    unfolding sr by (simp add: counter_sum_def counter_or_zero_def)
  have kT: "dict_keys T = [''translated'', ''needReview'', ''approved'', ''rejected'', ''total'']"
    using kt unfolding sr by (simp add: translation_fields_def)
  have kR: "dict_keys R = [''approved'', ''rejected'', ''total'']"
    using kr unfolding sr by (simp add: review_fields_def)
  have tT: "counter_or_zero T ''total'' = 1963"
    using st c3 unfolding sr by (simp add: counter_or_zero_def translation_fields_def)
  have tR: "counter_or_zero R ''total'' = 568"
    using sv c4 unfolding sr by (simp add: counter_or_zero_def review_fields_def)
  have vT: "counter_or_zero T ''translated'' = 1463" "counter_or_zero T ''needReview'' = 11"
    "counter_or_zero T ''approved'' = 486" "counter_or_zero T ''rejected'' = 3"
    using t unfolding sr
    by (simp_all add: translation_fields_def counter_sum_def counter_or_zero_def)
  have vR: "counter_or_zero R ''approved'' = 527" "counter_or_zero R ''rejected'' = 41"
    using v unfolding sr
    by (simp_all add: review_fields_def counter_sum_def counter_or_zero_def)
  have shape: "d = [(k1, counter_or_zero d k1), (k2, counter_or_zero d k2),
                    (k3, counter_or_zero d k3)]"
    if "dict_keys d = [k1, k2, k3]" "distinct [k1, k2, k3]" for d k1 k2 k3
    using that by (auto simp: dict_keys_def counter_or_zero_def)
  have shape5: "d = [(k1, counter_or_zero d k1), (k2, counter_or_zero d k2),
                    (k3, counter_or_zero d k3), (k4, counter_or_zero d k4),
                    (k5, counter_or_zero d k5)]"
    if "dict_keys d = [k1, k2, k3, k4, k5]" "distinct [k1, k2, k3, k4, k5]"
    for d k1 k2 k3 k4 k5
    using that by (auto simp: dict_keys_def counter_or_zero_def)
  have "T = ?T"
    using shape5[OF kT] vT tT by simp
  moreover have "R = ?R"
    using shape[OF kR] vR tR by simp
  ultimately have 1: "rollup (computeTotal ?a) = Some (?T, ?R)"
    using r by simp
  have 2: "rollup (computeTotal \<lparr>scopes = [(''proj-1'', [(''master'', ([], []))])],
      rollup = None\<rparr>) = Some ([], [])"
    using rollup_totals[of "\<lparr>scopes = [(''proj-1'', [(''master'', ([], []))])], rollup = None\<rparr>"]
    by (auto simp: stored_records_def computeTotal_def)
  from 1 f1 c1 f2 c2 c3 c4 2 show ?thesis by (intro conjI)
qed

end
